theory Spec2Isabelle
  imports Main "HOL-Library.AList" "HOL-Library.Sublist" "HOL-Library.Char_ord" "HOL-Library.List_Lexorder"
begin

section \<open>JavaScript values used by the scripts\<close>

text \<open>
  A JavaScript string is a sequence of code units. It is modelled as a \<open>string\<close>, one
  \<open>char\<close> per code unit, which covers the code units below 256. A plain object and a
  \<open>Map\<close> are association lists in insertion order; assigning to a key that is present
  replaces its value in place and assigning to a new key appends it, which is
  \<open>AList.update\<close>. What a plain object does differently for the key \<open>__proto__\<close> and
  for keys that are array indices is modelled where a key can be an extracted text, in
  \<open>assign_member\<close> and \<open>own_property_order\<close> below; the keys of the cache contain \<open>|\<close>.
\<close>

text \<open>The white space removed by \<open>String.prototype.trim\<close> and matched by \<open>\s\<close>:
  tab, line feed, vertical tab, form feed, carriage return, space, no-break space.\<close>

definition is_space :: "char \<Rightarrow> bool" where
  "is_space c = (c \<in> set [CHR 0x09, CHR 0x0A, CHR 0x0B, CHR 0x0C, CHR 0x0D, CHR 0x20, CHR 0xA0])"

text \<open>The line terminators, which \<open>.\<close> does not match.\<close>

definition is_line_terminator :: "char \<Rightarrow> bool" where
  "is_line_terminator c = (c = CHR 0x0A \<or> c = CHR 0x0D)"

definition is_digit :: "char \<Rightarrow> bool" where
  "is_digit c = (c \<in> set ''0123456789'')"

definition is_quote :: "char \<Rightarrow> bool" where
  "is_quote c = (c = CHR 0x22 \<or> c = CHR 0x27)"

definition trim :: "string \<Rightarrow> string" where
  "trim s = rev (dropWhile is_space (rev (dropWhile is_space s)))"

text \<open>\<open>s.replace(/^["']|["']$/g, '')\<close>: one quote character is removed at the start of
  the string and one at the end of what is left.\<close>

definition strip_quotes :: "string \<Rightarrow> string" where
  "strip_quotes s =
     (let s1 = (case s of [] \<Rightarrow> [] | c # cs \<Rightarrow> if is_quote c then cs else s)
      in if s1 \<noteq> [] \<and> is_quote (last s1) then butlast s1 else s1)"

text \<open>\<open>s.split('\n')\<close>.\<close>

fun split_lines :: "string \<Rightarrow> string list" where
  "split_lines [] = [[]]"
| "split_lines (c # cs) =
     (if c = CHR 0x0A then [] # split_lines cs
      else (case split_lines cs of l # ls \<Rightarrow> (c # l) # ls | [] \<Rightarrow> [[c]]))"

text \<open>\<open>parts.join(sep)\<close>.\<close>

fun join :: "string \<Rightarrow> string list \<Rightarrow> string" where
  "join sep [] = []"
| "join sep [x] = x"
| "join sep (x # y # ys) = x @ sep @ join sep (y # ys)"

text \<open>A natural number as a decimal string, as JavaScript converts an array index or a
  small integer.\<close>

definition digit_char :: "nat \<Rightarrow> char" where
  "digit_char n = ''0123456789'' ! (n mod 10)"

fun index_string :: "nat \<Rightarrow> string" where
  "index_string n = (if n < 10 then [digit_char n] else index_string (n div 10) @ [digit_char n])"

declare index_string.simps [simp del]

text \<open>A text between double quotes, as in the template \<open>"${text}"\<close>.\<close>

definition in_quotes :: "string \<Rightarrow> string" where
  "in_quotes s = [CHR 0x22] @ s @ [CHR 0x22]"

text \<open>
  The assignment \<open>obj[key] = value\<close> of a string or \<open>null\<close> to an object that was created
  as \<open>{}\<close> and has only been assigned to. The object is its own properties, in insertion
  order, and the fact that its prototype is still \<open>Object.prototype\<close>. As long as it is,
  the key \<open>__proto__\<close> is the accessor inherited from the prototype: its setter ignores a
  string and takes \<open>null\<close> as the new prototype, and in both cases no own property is
  written. Every other assignment writes an own property. \<open>JSON.stringify\<close> writes the
  own properties.
\<close>

definition assign_member :: "string \<Rightarrow> string option \<Rightarrow> bool \<times> (string \<times> string option) list \<Rightarrow>
    bool \<times> (string \<times> string option) list" where
  "assign_member key v = (\<lambda>(inherits, members).
     if key = ''__proto__'' \<and> inherits then (v \<noteq> None, members)
     else (inherits, AList.update key v members))"

text \<open>
  The order in which the own properties of a plain object are enumerated, which is the
  order in which \<open>JSON.stringify\<close> writes them: first the keys that are array indices,
  by ascending value, then the other keys in insertion order. An array index is the
  decimal string, without leading zeros, of an integer below \<open>2^32 - 1\<close>.
\<close>

definition index_value :: "string \<Rightarrow> nat" where
  "index_value s = foldl (\<lambda>n c. 10 * n + (of_char c - 48)) 0 s"

definition is_array_index :: "string \<Rightarrow> bool" where
  "is_array_index s =
     (s \<noteq> [] \<and> list_all is_digit s \<and> (s = ''0'' \<or> hd s \<noteq> CHR ''0'') \<and> index_value s < 4294967295)"

definition own_property_order :: "(string \<times> 'a) list \<Rightarrow> (string \<times> 'a) list" where
  "own_property_order members =
     sort_key (\<lambda>(key, v). index_value key) (filter (\<lambda>(key, v). is_array_index key) members) @
     filter (\<lambda>(key, v). \<not> is_array_index key) members"

text \<open>The result of \<open>JSON.parse\<close> on the text of a file.\<close>

datatype 'a parsed = Unparsable | Parsed 'a

section \<open>The translator: \<open>scripts/translate-text.js\<close>\<close>

subsection \<open>Data\<close>

text \<open>An entry of \<open>translation-cache.json\<close>, as \<open>setCachedTranslation\<close> builds it.\<close>

record cache_entry =
  original :: string
  translated :: string
  entry_context :: string
  model :: string
  targetLanguage :: string
  createdAt :: string

text \<open>The cache file \<open>{version, lastUpdated, cache}\<close>. An absent or empty \<open>version\<close> is
  the empty string; \<open>cache_obj\<close> is \<open>None\<close> when the member is absent.\<close>

record cache_data =
  version :: string
  lastUpdated :: string
  cache_obj :: "(string \<times> cache_entry) list option"

text \<open>An entry of \<open>extracted-text.json\<close>: it carries either \<open>file\<close> or, once merged by
  the extractor, \<open>files\<close>.\<close>

datatype provenance = SingleFile string | Files "string list"

record extracted_text =
  item_text :: string
  item_context :: string
  item_line :: nat
  item_origin :: provenance

record extraction_metadata =
  sourceDir :: string
  extractedAt :: string
  filesProcessed :: nat
  textsFound :: nat

record extracted_data =
  ex_metadata :: extraction_metadata
  ex_texts :: "extracted_text list"

text \<open>A translation result. \<open>r_translated\<close> is \<open>None\<close> for JavaScript's \<open>null\<close>;
  \<open>r_error\<close> is the optional flag \<open>error: true\<close>.\<close>

record translation_result =
  r_original :: string
  r_translated :: "string option"
  r_context :: string
  r_files :: "string list"
  fromCache :: bool
  r_error :: bool

record translation_metadata =
  tm_extraction :: extraction_metadata
  translatedAt :: string
  tm_model :: string
  tm_targetLanguage :: string
  totalTexts :: nat
  successfulTranslations :: nat
  failedTranslations :: int

record translation_data =
  td_metadata :: translation_metadata
  td_translations :: "translation_result list"

text \<open>The files of the working directory that the translator reads and writes; \<open>None\<close>
  is a file that does not exist.\<close>

record workdir =
  cacheFile :: "cache_data parsed option"
  extractedFile :: "extracted_data parsed option"
  translationsFile :: "translation_data option"
  mappingFile :: "(string \<times> string option) list option"

text \<open>
  The world outside the process. Every request to the provider and every reading of the
  clock takes the next tick, so a world fixes an arbitrary sequence of answers. A request
  fails (any exception of \<open>callOpenAI\<close>), or returns the content of the first choice,
  which is a string or not.
\<close>

datatype api_result = Failure | NonString | Content string

record world =
  api_at :: "nat \<Rightarrow> api_result"
  time_at :: "nat \<Rightarrow> string"

text \<open>A prompt is a template literal. It is kept as the template, the target language
  and the texts that are inserted; \<open>prompt_text\<close> below is the string it evaluates to.\<close>

datatype prompt = BatchPrompt string "extracted_text list" | SinglePrompt string string

text \<open>The fields of an \<open>AITranslator\<close>. \<open>tick\<close> counts the requests and clock readings
  made so far and \<open>requests\<close> lists the prompts sent to the provider so far; they are
  not fields of the class.\<close>

record translator =
  t_model :: string
  t_targetLanguage :: string
  cache :: "(string \<times> cache_entry) list"
  t_translations :: "(string \<times> translation_result) list"
  processedCount :: nat
  totalCount :: nat
  cacheHits :: nat
  apiCalls :: nat
  tick :: nat
  requests :: "prompt list"

datatype run_error = ExtractedTextNotFound | SyntaxError

subsection \<open>The cache\<close>

definition admit_entry :: "translator \<Rightarrow> string \<times> cache_entry \<Rightarrow>
    (string \<times> cache_entry) list \<Rightarrow> (string \<times> cache_entry) list" where
  "admit_entry t = (\<lambda>(key, entry) c.
     if model entry = t_model t \<and> targetLanguage entry = t_targetLanguage t
     then AList.update key entry c else c)"

definition loadCache :: "cache_data parsed option \<Rightarrow> translator \<Rightarrow> translator" where
  "loadCache file t =
     (case file of
        None \<Rightarrow> t
      | Some Unparsable \<Rightarrow> t\<lparr>cache := []\<rparr>
      | Some (Parsed cacheData) \<Rightarrow>
          (case cache_obj cacheData of
             None \<Rightarrow> t
           | Some entries \<Rightarrow>
               if version cacheData \<noteq> []
               then t\<lparr>cache := fold (admit_entry t) entries (cache t)\<rparr>
               else t))"

text \<open>The constructor, for a configuration already read from the environment.\<close>

definition AITranslator :: "string \<Rightarrow> string \<Rightarrow> cache_data parsed option \<Rightarrow> translator" where
  "AITranslator m lang file =
     loadCache file
       \<lparr>t_model = m, t_targetLanguage = lang, cache = [], t_translations = [],
        processedCount = 0, totalCount = 0, cacheHits = 0, apiCalls = 0, tick = 0,
        requests = []\<rparr>"

definition existing_cache :: "cache_data parsed option \<Rightarrow> (string \<times> cache_entry) list" where
  "existing_cache file =
     (case file of
        Some (Parsed cacheData) \<Rightarrow> (case cache_obj cacheData of Some entries \<Rightarrow> entries | None \<Rightarrow> [])
      | _ \<Rightarrow> [])"

definition merge_cache :: "(string \<times> cache_entry) list \<Rightarrow> (string \<times> cache_entry) list \<Rightarrow>
    (string \<times> cache_entry) list" where
  "merge_cache mem existingCache = fold (\<lambda>(key, entry) ex. AList.update key entry ex) mem existingCache"

text \<open>\<open>saveCache\<close>, with the clock reading \<open>now\<close> that goes into \<open>lastUpdated\<close>; it
  returns the new content of the cache file.\<close>

definition saveCache :: "string \<Rightarrow> translator \<Rightarrow> cache_data parsed option \<Rightarrow> cache_data parsed option" where
  "saveCache now t file =
     Some (Parsed \<lparr>version = ''1.0'', lastUpdated = now,
                   cache_obj = Some (merge_cache (cache t) (existing_cache file))\<rparr>)"

definition getCacheKey :: "translator \<Rightarrow> string \<Rightarrow> string \<Rightarrow> string" where
  "getCacheKey t txt ctx = txt @ ''|'' @ t_model t @ ''|'' @ t_targetLanguage t @ ''|'' @ ctx"

definition getCachedTranslation :: "translator \<Rightarrow> string \<Rightarrow> string \<Rightarrow> string option \<times> translator" where
  "getCachedTranslation t txt ctx =
     (case map_of (cache t) (getCacheKey t txt ctx) of
        None \<Rightarrow> (None, t)
      | Some cached \<Rightarrow>
          if translated cached \<noteq> []
          then (Some (translated cached), t\<lparr>cacheHits := cacheHits t + 1\<rparr>)
          else (None, t))"

definition setCachedTranslation :: "world \<Rightarrow> string \<Rightarrow> string \<Rightarrow> string \<Rightarrow> translator \<Rightarrow> translator" where
  "setCachedTranslation w txt tr ctx t =
     t\<lparr>cache := AList.update (getCacheKey t txt ctx)
                   \<lparr>original = txt, translated = tr, entry_context = ctx, model = t_model t,
                    targetLanguage = t_targetLanguage t, createdAt = time_at w (tick t)\<rparr>
                   (cache t),
       tick := tick t + 1\<rparr>"

subsection \<open>Translating\<close>

definition separate_step :: "extracted_text \<Rightarrow>
    extracted_text list \<times> extracted_text list \<times> translator \<Rightarrow>
    extracted_text list \<times> extracted_text list \<times> translator" where
  "separate_step x = (\<lambda>(cachedTexts, uncachedTexts, t).
     (case getCachedTranslation t (item_text x) (item_context x) of
        (Some _, t') \<Rightarrow> (cachedTexts @ [x], uncachedTexts, t')
      | (None, t') \<Rightarrow> (cachedTexts, uncachedTexts @ [x], t')))"

text \<open>The test \<open>if (cached)\<close> on the result of a lookup.\<close>

definition is_hit :: "translator \<Rightarrow> extracted_text \<Rightarrow> bool" where
  "is_hit t x = (fst (getCachedTranslation t (item_text x) (item_context x)) \<noteq> None)"

definition separateCachedTexts :: "translator \<Rightarrow> extracted_text list \<Rightarrow>
    extracted_text list \<times> extracted_text list \<times> translator" where
  "separateCachedTexts t texts = fold separate_step texts ([], [], t)"

function batches_from :: "'a list \<Rightarrow> nat \<Rightarrow> 'a list list" where
  "batches_from xs n = (if xs = [] \<or> n = 0 then [] else take n xs # batches_from (drop n xs) n)"
  by pat_completeness auto
termination
  by (relation "measure (\<lambda>(xs, n). length xs)") auto

declare batches_from.simps [simp del]

text \<open>\<open>createBatches\<close>: the loop \<open>for (i = 0; i < texts.length; i += batchSize)\<close> does not
  end for a batch size of 0 on a non-empty list, which is the result \<open>None\<close>.\<close>

definition createBatches :: "'a list \<Rightarrow> nat \<Rightarrow> 'a list list option" where
  "createBatches texts batchSize =
     (if batchSize = 0 \<and> texts \<noteq> [] then None else Some (batches_from texts batchSize))"

definition files_of :: "extracted_text \<Rightarrow> string list" where
  "files_of x = (case item_origin x of Files fs \<Rightarrow> fs | SingleFile f \<Rightarrow> [f])"

text \<open>\<open>createBatchPrompt\<close> and the prompt of \<open>translateSingle\<close>.\<close>

definition createBatchPrompt :: "translator \<Rightarrow> extracted_text list \<Rightarrow> prompt" where
  "createBatchPrompt t batch = BatchPrompt (t_targetLanguage t) batch"

definition translateSingle_prompt :: "translator \<Rightarrow> string \<Rightarrow> prompt" where
  "translateSingle_prompt t tx = SinglePrompt (t_targetLanguage t) tx"

text \<open>The two templates, line by line.\<close>

fun prompt_text :: "prompt \<Rightarrow> string" where
  "prompt_text (BatchPrompt lang batch) =
     (let textList = join [CHR 0x0A]
            (map (\<lambda>(item, index). index_string (index + 1) @ ''. '' @ in_quotes (item_text item))
                 (zip batch [0..<length batch]))
      in join [CHR 0x0A]
        [''You are a professional software localization expert. Translate the following UI text strings from English to ''
           @ lang @ ''.'',
         [],
         ''CRITICAL INSTRUCTIONS - READ CAREFULLY:'',
         ''- ONLY translate genuine user interface text (buttons, messages, labels, tooltips)'',
         ''- DO NOT translate if the text appears to be:'',
         ''  * Package names (e.g., '' @ in_quotes ''floating-vue'' @ '', '' @ in_quotes ''vue-router'' @ '')'',
         ''  * File paths or URLs (e.g., '' @ in_quotes ''./component.vue'' @ '', '' @ in_quotes ''https://...'' @ '')'',
         ''  * Function names or variables (e.g., '' @ in_quotes ''onClick'' @ '', '' @ in_quotes ''userData'' @ '')'',
         ''  * CSS classes or IDs (e.g., '' @ in_quotes ''btn-primary'' @ '', '' @ in_quotes ''#app'' @ '')'',
         ''  * Technical identifiers or code snippets'',
         ''  * Import statements or module names'',
         ''  * Configuration keys or API endpoints'',
         ''- Preserve placeholders, variables, and special formatting (like {}, [], etc.)'',
         ''- Keep technical terms and proper nouns in English when appropriate'',
         ''- Make translations natural and user-friendly for '' @ lang @ '' speakers'',
         ''- If uncertain whether text is UI-related, DO NOT translate it - return original text'',
         [],
         ''WHEN IN DOUBT: If text looks technical or code-related, keep it unchanged!'',
         [],
         ''Context: These are extracted from a Vue.js desktop application. Only user-facing text should be translated.'',
         [],
         ''Text strings to translate:'',
         textList,
         [],
         ''Please respond with ONLY the translated strings in the same numbered format. Use original text if unsure:'',
         ''1. [translated text 1]'',
         ''2. [translated text 2]'',
         ''...'',
         [],
         ''Do not include any explanation or additional text.''])"
| "prompt_text (SinglePrompt lang tx) =
     join [CHR 0x0A]
       [''Translate this UI text from English to '' @ lang @ ''. '',
        [],
        ''CRITICAL: Only translate if this is genuine user interface text (buttons, messages, labels). '',
        ''DO NOT translate if it looks like: package names, file paths, function names, CSS classes, or any technical identifiers.'',
        ''WHEN IN DOUBT: Return the original text unchanged.'',
        [],
        ''Text: '' @ in_quotes tx,
        [],
        ''Translation:'']"

text \<open>\<open>callOpenAI\<close>: the text of the prompt is sent as the user message of a request, and
  the world answers.\<close>

definition callOpenAI :: "world \<Rightarrow> prompt \<Rightarrow> translator \<Rightarrow> api_result \<times> translator" where
  "callOpenAI w prompt t = (api_at w (tick t), t\<lparr>tick := tick t + 1, requests := requests t @ [prompt]\<rparr>)"

text \<open>The regular expression \<open>/^\d+\.\s*(.+)$/\<close> on one line: the first capture group, or
  \<open>None\<close> when the line does not match. \<open>\s*\<close> is greedy and gives a character back
  only when nothing is left for \<open>.+\<close>, and \<open>.\<close> matches no line terminator.\<close>

definition match_numbered :: "string \<Rightarrow> string option" where
  "match_numbered line =
     (if takeWhile is_digit line = [] then None
      else (case dropWhile is_digit line of
              [] \<Rightarrow> None
            | c # rest \<Rightarrow>
                if c \<noteq> CHR ''.'' then None
                else let body = dropWhile is_space rest in
                  if body \<noteq> [] then (if list_ex is_line_terminator body then None else Some body)
                  else if rest = [] \<or> is_line_terminator (last rest) then None
                  else Some [last rest]))"

definition labeled_lines :: "string \<Rightarrow> string list" where
  "labeled_lines response =
     map (\<lambda>m. strip_quotes (trim m))
       (List.map_filter match_numbered (filter (\<lambda>line. trim line \<noteq> []) (split_lines response)))"

function pad_translations :: "string list \<Rightarrow> extracted_text list \<Rightarrow> string list" where
  "pad_translations trs originalBatch =
     (if length trs < length originalBatch
      then pad_translations (trs @ [item_text (originalBatch ! length trs)]) originalBatch
      else trs)"
  by pat_completeness auto
termination
  by (relation "measure (\<lambda>(trs, originalBatch). length originalBatch - length trs)") auto

declare pad_translations.simps [simp del]

definition parseBatchResponse :: "string \<Rightarrow> extracted_text list \<Rightarrow> string list" where
  "parseBatchResponse response originalBatch = pad_translations (labeled_lines response) originalBatch"

text \<open>\<open>translateSingle\<close>, after the request has returned a string.\<close>

definition translateSingle_result :: "string \<Rightarrow> string" where
  "translateSingle_result response = strip_quotes (trim response)"

definition store_result :: "extracted_text \<Rightarrow> string option \<Rightarrow> bool \<Rightarrow> bool \<Rightarrow> translator \<Rightarrow> translator" where
  "store_result x tr cached err t =
     t\<lparr>t_translations := AList.update (item_text x)
          \<lparr>r_original = item_text x, r_translated = tr, r_context = item_context x,
           r_files = files_of x, fromCache = cached, r_error = err\<rparr>
          (t_translations t),
       processedCount := processedCount t + 1\<rparr>"

text \<open>The body of the loop of \<open>translateBatchIndividually\<close> for one item.\<close>

definition translate_item :: "world \<Rightarrow> extracted_text \<Rightarrow> translator \<Rightarrow> translator" where
  "translate_item w x t =
     (case getCachedTranslation t (item_text x) (item_context x) of
        (Some tr, t1) \<Rightarrow> store_result x (Some tr) True False t1
      | (None, t1) \<Rightarrow>
          (case callOpenAI w (translateSingle_prompt t1 (item_text x)) t1 of
             (Content response, t2) \<Rightarrow>
               let tr = translateSingle_result response;
                   t3 = t2\<lparr>apiCalls := apiCalls t2 + 1\<rparr>;
                   t4 = setCachedTranslation w (item_text x) tr (item_context x) t3
               in store_result x (Some tr) False False t4
           | (_, t2) \<Rightarrow> store_result x (Some (item_text x)) False True t2))"

definition translateBatchIndividually :: "world \<Rightarrow> extracted_text list \<Rightarrow> translator \<Rightarrow> translator" where
  "translateBatchIndividually w batch t = fold (translate_item w) batch t"

text \<open>The body of the loop of \<open>translateBatch\<close> for the item at index \<open>i\<close>;
  \<open>translations[i] || originalText.text\<close> falls back on an empty string.\<close>

definition store_batch_item :: "world \<Rightarrow> string list \<Rightarrow> extracted_text list \<Rightarrow> nat \<Rightarrow> translator \<Rightarrow> translator" where
  "store_batch_item w trs batch i t =
     (let originalText = batch ! i;
          translatedText = (if i < length trs \<and> trs ! i \<noteq> [] then trs ! i else item_text originalText);
          t1 = setCachedTranslation w (item_text originalText) translatedText (item_context originalText) t
      in store_result originalText (Some translatedText) False False t1)"

definition translateBatch :: "world \<Rightarrow> extracted_text list \<Rightarrow> translator \<Rightarrow> translator" where
  "translateBatch w batch t =
     (case callOpenAI w (createBatchPrompt t batch) t of
        (Failure, t1) \<Rightarrow> translateBatchIndividually w batch t1
      | (NonString, t1) \<Rightarrow> translateBatchIndividually w batch (t1\<lparr>apiCalls := apiCalls t1 + 1\<rparr>)
      | (Content response, t1) \<Rightarrow>
          let t2 = t1\<lparr>apiCalls := apiCalls t1 + 1\<rparr>;
              trs = parseBatchResponse response batch
          in fold (store_batch_item w trs batch) [0..<length batch] t2)"

definition process_cached :: "extracted_text \<Rightarrow> translator \<Rightarrow> translator" where
  "process_cached x t =
     (case getCachedTranslation t (item_text x) (item_context x) of
        (cached, t1) \<Rightarrow> store_result x cached True False t1)"

text \<open>The loop of \<open>saveTranslations\<close> that fills \<open>mappingData = {}\<close>, and the members that
  \<open>JSON.stringify\<close> writes.\<close>

definition mapping_of :: "(string \<times> translation_result) list \<Rightarrow> (string \<times> string option) list" where
  "mapping_of trs =
     own_property_order
       (snd (fold (\<lambda>(key, v) mappingData.
                     if r_translated v \<noteq> Some (r_original v) then assign_member key (r_translated v) mappingData
                     else mappingData)
                  trs (True, [])))"

definition saveTranslations :: "world \<Rightarrow> extracted_data \<Rightarrow> translator \<Rightarrow> workdir \<Rightarrow> workdir" where
  "saveTranslations w originalData t d =
     d\<lparr>translationsFile := Some
          \<lparr>td_metadata =
             \<lparr>tm_extraction = ex_metadata originalData, translatedAt = time_at w (tick t),
              tm_model = t_model t, tm_targetLanguage = t_targetLanguage t,
              totalTexts = totalCount t, successfulTranslations = processedCount t,
              failedTranslations = int (totalCount t) - int (processedCount t)\<rparr>,
           td_translations = map snd (t_translations t)\<rparr>,
       mappingFile := Some (mapping_of (t_translations t))\<rparr>"

text \<open>\<open>translateTexts\<close>: the working directory and the translator after the run, or the
  error that ends it.\<close>

definition translateTexts :: "world \<Rightarrow> workdir \<Rightarrow> translator \<Rightarrow> run_error + workdir \<times> translator" where
  "translateTexts w d t =
     (case extractedFile d of
        None \<Rightarrow> Inl ExtractedTextNotFound
      | Some Unparsable \<Rightarrow> Inl SyntaxError
      | Some (Parsed extractedData) \<Rightarrow>
          let texts = ex_texts extractedData in
          if texts = [] then Inr (d, t)
          else
            (case separateCachedTexts (t\<lparr>totalCount := length texts\<rparr>) texts of
               (cachedTexts, uncachedTexts, t1) \<Rightarrow>
                 let t2 = fold process_cached cachedTexts t1;
                     t3 = fold (translateBatch w) (batches_from uncachedTexts 10) t2;
                     d1 = d\<lparr>cacheFile := saveCache (time_at w (tick t3)) t3 (cacheFile d)\<rparr>;
                     t4 = t3\<lparr>tick := tick t3 + 1\<rparr>
                 in Inr (saveTranslations w extractedData t4 d1, t4\<lparr>tick := tick t4 + 1\<rparr>)))"

text \<open>What every \<open>this.translations.set(text.text, {original: text.text, ...})\<close> keeps: the
  keys of the \<open>Map\<close> are distinct and each result is stored under its own original.\<close>

definition results_ok :: "translator \<Rightarrow> bool" where
  "results_ok t =
     (distinct (map fst (t_translations t)) \<and> (\<forall>(k, r) \<in> set (t_translations t). r_original r = k))"

text \<open>The translator is configured for a model and a language, and every entry of its
  in-memory cache carries them.\<close>

definition cache_for :: "string \<Rightarrow> string \<Rightarrow> translator \<Rightarrow> bool" where
  "cache_for m lang t =
     (t_model t = m \<and> t_targetLanguage t = lang \<and>
      (\<forall>(k, e) \<in> set (cache t). model e = m \<and> targetLanguage e = lang))"

section \<open>The replacer: \<open>scripts/replace-text.js\<close>\<close>

text \<open>The script is modelled as of its revision 1.1.0, which validates the mapping and
  replaces by exact text.\<close>

subsection \<open>Loading the mapping\<close>

datatype json = JNull | JBool bool | JNumber int | JString string
  | JArray "json list" | JObject "(string \<times> json) list"

datatype replace_error = MappingNotFound | MappingSyntaxError | InvalidMappingData


text \<open>\<open>Object.entries\<close>: the members of an object; for an array the elements under their
  indices.\<close>

definition object_entries :: "json \<Rightarrow> (string \<times> json) list" where
  "object_entries v =
     (case v of
        JObject members \<Rightarrow> members
      | JArray elems \<Rightarrow> zip (map index_string [0..<length elems]) elems
      | JString s \<Rightarrow> zip (map index_string [0..<length s]) (map (\<lambda>c. JString [c]) s)
      | _ \<Rightarrow> [])"

text \<open>\<open>!mappingData || typeof mappingData !== 'object'\<close> is false.\<close>

definition is_object :: "json \<Rightarrow> bool" where
  "is_object v = (case v of JObject _ \<Rightarrow> True | JArray _ \<Rightarrow> True | _ \<Rightarrow> False)"

text \<open>The test of \<open>loadTranslationMapping\<close> on one member, in the order of the source;
  a key is always a string.\<close>

definition valid_mapping :: "string \<Rightarrow> json \<Rightarrow> bool" where
  "valid_mapping orig v =
     (case v of
        JString tr \<Rightarrow> orig \<noteq> [] \<and> tr \<noteq> [] \<and> trim orig \<noteq> [] \<and> trim tr \<noteq> [] \<and> orig \<noteq> tr
      | _ \<Rightarrow> False)"

definition add_mapping :: "string \<times> json \<Rightarrow> (string \<times> string) list \<times> nat \<Rightarrow> (string \<times> string) list \<times> nat" where
  "add_mapping = (\<lambda>(orig, v) (reps, validMappings).
     (case v of
        JString tr \<Rightarrow>
          if valid_mapping orig v then (AList.update (trim orig) (trim tr) reps, validMappings + 1)
          else (reps, validMappings)
      | _ \<Rightarrow> (reps, validMappings)))"

text \<open>\<open>loadTranslationMapping\<close> on a fresh replacer: the \<open>replacements\<close> map and the count
  \<open>validMappings\<close>, or the error that ends the run.\<close>

definition loadTranslationMapping :: "json parsed option \<Rightarrow> replace_error + (string \<times> string) list \<times> nat" where
  "loadTranslationMapping file =
     (case file of
        None \<Rightarrow> Inl MappingNotFound
      | Some Unparsable \<Rightarrow> Inl MappingSyntaxError
      | Some (Parsed mappingData) \<Rightarrow>
          if \<not> is_object mappingData then Inl InvalidMappingData
          else Inr (fold add_mapping (object_entries mappingData) ([], 0)))"

subsection \<open>Replacing in one file\<close>

text \<open>The characters that \<open>createReplacementRegex\<close> escapes, \<open>[.*+?^${}()|[\]\\]\<close>; they are
  the syntax characters of a pattern.\<close>

definition syntax_chars :: "char list" where
  "syntax_chars = [CHR ''.'', CHR ''*'', CHR ''+'', CHR ''?'', CHR ''^'', CHR ''$'', CHR ''{'', CHR ''}'',
                   CHR ''('', CHR '')'', CHR ''|'', CHR ''['', CHR '']'', CHR 0x5C]"

definition escapeRegExp :: "string \<Rightarrow> string" where
  "escapeRegExp s = concat (map (\<lambda>c. if c \<in> set syntax_chars then [CHR 0x5C, c] else [c]) s)"

text \<open>A regular expression with the flag \<open>g\<close>, by its source.\<close>

datatype regexp = RegExp_g string

definition createReplacementRegex :: "string \<Rightarrow> regexp" where
  "createReplacementRegex s = RegExp_g (escapeRegExp s)"

text \<open>The text that a pattern matches when it consists of pattern characters and escaped
  syntax characters only; \<open>None\<close> for a pattern with any other syntax, which this model
  does not interpret.\<close>

fun pattern_literal :: "string \<Rightarrow> string option" where
  "pattern_literal [] = Some []"
| "pattern_literal [c] = (if c \<in> set syntax_chars then None else Some [c])"
| "pattern_literal (c # d # ds) =
     (if c = CHR 0x5C then (if d \<in> set syntax_chars then map_option (Cons d) (pattern_literal ds) else None)
      else if c \<in> set syntax_chars then None
      else map_option (Cons c) (pattern_literal (d # ds)))"

text \<open>
  The loop \<open>while ((match = tempRegex.exec(modifiedContent)) !== null)\<close> for a pattern that
  matches the text \<open>k\<close>: \<open>s\<close> is the content from \<open>lastIndex\<close> on and \<open>i\<close> is
  \<open>lastIndex\<close>. Each match is recorded with its index and the search goes on behind it.
  The empty pattern matches at \<open>lastIndex\<close> without moving it, so the loop does not end:
  the result is \<open>None\<close>.
\<close>

function exec_loop :: "string \<Rightarrow> string \<Rightarrow> nat \<Rightarrow> (string \<times> nat) list option" where
  "exec_loop k s i =
     (if k = [] then None
      else if s = [] then Some []
      else if prefix k s then map_option (Cons (k, i)) (exec_loop k (drop (length k) s) (i + length k))
      else exec_loop k (tl s) (Suc i))"
  by pat_completeness auto
termination
  by (relation "measure (\<lambda>(k, s, i). length s)") auto

declare exec_loop.simps [simp del]

text \<open>\<open>GetSubstitution\<close> for a pattern without capture groups: in the replacement text
  \<open>$$\<close> stands for \<open>$\<close>, \<open>$&\<close> for the match, \<open>$`\<close> for the text before it and \<open>$'\<close>
  for the text after it; everything else is copied.\<close>

fun getSubstitution :: "string \<Rightarrow> string \<Rightarrow> string \<Rightarrow> string \<Rightarrow> string" where
  "getSubstitution matched preceding following [] = []"
| "getSubstitution matched preceding following [c] = [c]"
| "getSubstitution matched preceding following (c # d # ds) =
     (if c = CHR ''$'' \<and> d = CHR ''$'' then CHR ''$'' # getSubstitution matched preceding following ds
      else if c = CHR ''$'' \<and> d = CHR ''&'' then matched @ getSubstitution matched preceding following ds
      else if c = CHR ''$'' \<and> d = CHR 0x60 then preceding @ getSubstitution matched preceding following ds
      else if c = CHR ''$'' \<and> d = CHR 0x27 then following @ getSubstitution matched preceding following ds
      else c # getSubstitution matched preceding following (d # ds))"

text \<open>\<open>content.replace(regex, translated)\<close> for a pattern that matches the text \<open>k\<close>:
  \<open>passed\<close> is the part of the content already passed and \<open>s\<close> the rest. After an empty
  match the search moves on by one character.\<close>

function replace_loop :: "string \<Rightarrow> string \<Rightarrow> string \<Rightarrow> string \<Rightarrow> string" where
  "replace_loop k tr passed s =
     (if k = [] then
        getSubstitution [] passed s tr @
          (case s of [] \<Rightarrow> [] | c # cs \<Rightarrow> c # replace_loop k tr (passed @ [c]) cs)
      else if s = [] then []
      else if prefix k s then
        getSubstitution k passed (drop (length k) s) tr @
          replace_loop k tr (passed @ k) (drop (length k) s)
      else hd s # replace_loop k tr (passed @ [hd s]) (tl s))"
  by pat_completeness auto
termination
  by (relation "measure (\<lambda>(k, tr, passed, s). length s)") auto

declare replace_loop.simps [simp del]

definition regex_exec_all :: "regexp \<Rightarrow> string \<Rightarrow> (string \<times> nat) list option" where
  "regex_exec_all r content =
     (case r of RegExp_g src \<Rightarrow>
        (case pattern_literal src of None \<Rightarrow> None | Some k \<Rightarrow> exec_loop k content 0))"

definition string_replace :: "string \<Rightarrow> regexp \<Rightarrow> string \<Rightarrow> string option" where
  "string_replace content r tr =
     (case r of RegExp_g src \<Rightarrow>
        (case pattern_literal src of None \<Rightarrow> None | Some k \<Rightarrow> Some (replace_loop k tr [] content)))"







text \<open>The positions at which \<open>k\<close> occurs in \<open>c\<close> as an exact substring, and the condition
  that no two of these occurrences overlap.\<close>

definition occurrences_in :: "string \<Rightarrow> string \<Rightarrow> nat list" where
  "occurrences_in k c = filter (\<lambda>i. prefix k (drop i c)) [0..<length c]"







section \<open>The extractors: \<open>scripts/extract-text.js\<close> and the Vue SFC extractor\<close>

subsection \<open>Walking the source tree\<close>

text \<open>
  What \<open>readdirSync(dir, {withFileTypes: true})\<close> returns, in its order: a file with its
  name and content, a directory with its name and entries, or an entry that is neither.
  A path is kept as the list of its names below the source directory.
\<close>

datatype dirent = File string string | Directory string "dirent list" | Other string

text \<open>\<open>toLowerCase\<close> on the code units below 256.\<close>

definition lower_char :: "char \<Rightarrow> char" where
  "lower_char c =
     (let n = (of_char c :: nat)
      in if (65 \<le> n \<and> n \<le> 90) \<or> (192 \<le> n \<and> n \<le> 222 \<and> n \<noteq> 215) then char_of (n + 32) else c)"

definition toLowerCase :: "string \<Rightarrow> string" where
  "toLowerCase s = map lower_char s"

text \<open>\<open>path.extname\<close> of a name without separators: from the last dot on, unless there is
  no dot, the last dot is the first character, or the name is \<open>..\<close>.\<close>

definition extname :: "string \<Rightarrow> string" where
  "extname name =
     (let ext = rev (takeWhile (\<lambda>c. c \<noteq> CHR ''.'') (rev name))
      in if CHR ''.'' \<notin> set name \<or> length name = length ext + 1 \<or> name = ''..'' then []
         else CHR ''.'' # ext)"

definition excluded_dirs :: "string list" where
  "excluded_dirs = [''node_modules'', ''.git'', ''dist'', ''build'', ''.nuxt'', ''.next'']"

definition skipFiles :: "string list" where
  "skipFiles =
     [''nuxt.config.ts'', ''nuxt.config.js'', ''vite.config.ts'', ''vite.config.js'',
      ''webpack.config.js'', ''webpack.config.ts'', ''rollup.config.js'', ''rollup.config.ts'',
      ''tailwind.config.js'', ''tailwind.config.ts'', ''tsconfig.json'', ''package.json'',
      ''eslint.config.js'', ''eslint.config.ts'']"

definition script_exts :: "string list" where
  "script_exts = [''.vue'', ''.js'', ''.ts'', ''.jsx'', ''.tsx'']"

text \<open>\<open>TextExtractor.scanDirectory\<close> of \<open>extract-text.js\<close>: the files it hands to
  \<open>processFile\<close>, in order. At a configuration file the method returns.\<close>

fun TextExtractor_scanDirectory :: "string list \<Rightarrow> dirent list \<Rightarrow> (string list \<times> string) list" where
  "TextExtractor_scanDirectory dir [] = []"
| "TextExtractor_scanDirectory dir (Directory name entries # es) =
     (if name \<in> set excluded_dirs then [] else TextExtractor_scanDirectory (dir @ [name]) entries)
     @ TextExtractor_scanDirectory dir es"
| "TextExtractor_scanDirectory dir (File name content # es) =
     (if toLowerCase name \<in> set skipFiles then []
      else (if toLowerCase (extname name) \<in> set script_exts then [(dir @ [name], content)] else [])
           @ TextExtractor_scanDirectory dir es)"
| "TextExtractor_scanDirectory dir (Other name # es) = TextExtractor_scanDirectory dir es"

text \<open>\<open>VueSFCExtractor.scanDirectory\<close>: the files it hands to \<open>processVueFile\<close> or
  \<open>processJSFile\<close>, in order. At a configuration file the loop continues.\<close>

fun VueSFCExtractor_scanDirectory :: "string list \<Rightarrow> dirent list \<Rightarrow> (string list \<times> string) list" where
  "VueSFCExtractor_scanDirectory dir [] = []"
| "VueSFCExtractor_scanDirectory dir (Directory name entries # es) =
     (if name \<in> set excluded_dirs then [] else VueSFCExtractor_scanDirectory (dir @ [name]) entries)
     @ VueSFCExtractor_scanDirectory dir es"
| "VueSFCExtractor_scanDirectory dir (File name content # es) =
     (if toLowerCase name \<in> set skipFiles then []
      else if toLowerCase (extname name) = ''.vue'' then [(dir @ [name], content)]
      else if toLowerCase (extname name) \<in> set [''.js'', ''.ts'', ''.jsx'', ''.tsx''] then [(dir @ [name], content)]
      else [])
     @ VueSFCExtractor_scanDirectory dir es"
| "VueSFCExtractor_scanDirectory dir (Other name # es) = VueSFCExtractor_scanDirectory dir es"

text \<open>The files that the specification wants visited: every file with a component or
  script extension that is not inside an excluded directory and is not an excluded
  configuration file.\<close>

fun eligible_files :: "string list \<Rightarrow> dirent list \<Rightarrow> (string list \<times> string) list" where
  "eligible_files dir [] = []"
| "eligible_files dir (Directory name entries # es) =
     (if name \<in> set excluded_dirs then [] else eligible_files (dir @ [name]) entries)
     @ eligible_files dir es"
| "eligible_files dir (File name content # es) =
     (if toLowerCase (extname name) \<in> set script_exts \<and> toLowerCase name \<notin> set skipFiles
      then [(dir @ [name], content)] else [])
     @ eligible_files dir es"
| "eligible_files dir (Other name # es) = eligible_files dir es"

subsection \<open>Collecting and merging the texts\<close>

text \<open>What \<open>addText\<close> pushes onto \<open>extractedTexts\<close>.\<close>

record raw_text =
  rt_text :: string
  rt_file :: string
  rt_context :: string
  rt_line :: nat

definition addText :: "string \<Rightarrow> string \<Rightarrow> string \<Rightarrow> raw_text list \<Rightarrow> raw_text list" where
  "addText tx filePath ctx extractedTexts =
     (if tx = [] then extractedTexts
      else let trimmedText = trim tx in
        if trimmedText \<noteq> []
        then extractedTexts @ [\<lparr>rt_text = trimmedText, rt_file = filePath, rt_context = ctx, rt_line = 1\<rparr>]
        else extractedTexts)"

definition relative_path :: "string list \<Rightarrow> string" where
  "relative_path names = (case names of [] \<Rightarrow> [] | n # ns \<Rightarrow> foldl (\<lambda>p m. p @ ''/'' @ m) n ns)"

text \<open>
  \<open>TextExtractor.processFile\<close> on a readable file. Which texts of a file are candidates is
  decided by the patterns of \<open>extractFromVue\<close> and \<open>extractFromScript\<close> and by
  \<open>isTranslatable\<close>; they are the parameter \<open>harvest\<close>, from the extension and the content
  to the texts handed to \<open>addText\<close> with their context.
\<close>

definition TextExtractor_processFile :: "(string \<Rightarrow> string \<Rightarrow> (string \<times> string) list) \<Rightarrow>
    string list \<times> string \<Rightarrow> raw_text list \<times> nat \<Rightarrow> raw_text list \<times> nat" where
  "TextExtractor_processFile harvest = (\<lambda>(names, content) (extractedTexts, processedFiles).
     (fold (\<lambda>(tx, ctx). addText tx (relative_path names) ctx)
           (harvest (toLowerCase (extname (last names))) content) extractedTexts,
      processedFiles + 1))"

definition to_entry :: "raw_text \<Rightarrow> extracted_text" where
  "to_entry item =
     \<lparr>item_text = rt_text item, item_context = rt_context item, item_line = rt_line item,
      item_origin = SingleFile (rt_file item)\<rparr>"

text \<open>The change that \<open>removeDuplicates\<close> makes to the entry it found: \<open>file\<close> becomes
  \<open>files\<close>, and the file of the duplicate is added unless it is there.\<close>

definition add_file :: "string \<Rightarrow> extracted_text \<Rightarrow> extracted_text" where
  "add_file f existing =
     (let fs = (case item_origin existing of SingleFile g \<Rightarrow> [g] | Files gs \<Rightarrow> gs)
      in existing\<lparr>item_origin := Files (if f \<in> set fs then fs else fs @ [f])\<rparr>)"

text \<open>\<open>unique.find(...)\<close> followed by the change of the object found.\<close>

fun update_first :: "('a \<Rightarrow> bool) \<Rightarrow> ('a \<Rightarrow> 'a) \<Rightarrow> 'a list \<Rightarrow> 'a list" where
  "update_first P f [] = []"
| "update_first P f (x # xs) = (if P x then f x # xs else x # update_first P f xs)"

definition dedup_step :: "raw_text \<Rightarrow> string list \<times> extracted_text list \<Rightarrow> string list \<times> extracted_text list" where
  "dedup_step item = (\<lambda>(seen, unique).
     let key = rt_text item @ '':'' @ rt_context item in
     if key \<notin> set seen then (seen @ [key], unique @ [to_entry item])
     else (seen, update_first (\<lambda>u. item_text u = rt_text item \<and> item_context u = rt_context item)
                   (add_file (rt_file item)) unique))"

text \<open>\<open>Array.prototype.sort\<close> is stable; \<open>le a b\<close> stands for \<open>compare(a, b) <= 0\<close>.\<close>

fun insort_by :: "('a \<Rightarrow> 'a \<Rightarrow> bool) \<Rightarrow> 'a \<Rightarrow> 'a list \<Rightarrow> 'a list" where
  "insort_by le x [] = [x]"
| "insort_by le x (y # ys) = (if le x y then x # y # ys else y # insort_by le x ys)"

definition sort_by :: "('a \<Rightarrow> 'a \<Rightarrow> bool) \<Rightarrow> 'a list \<Rightarrow> 'a list" where
  "sort_by le xs = foldr (insort_by le) xs []"

text \<open>\<open>removeDuplicates\<close>; \<open>localeCompare\<close> is a parameter, the collation of the locale.\<close>

definition removeDuplicates :: "(string \<Rightarrow> string \<Rightarrow> int) \<Rightarrow> raw_text list \<Rightarrow> extracted_text list" where
  "removeDuplicates localeCompare extractedTexts =
     sort_by (\<lambda>a b. localeCompare (item_text a) (item_text b) \<le> 0)
       (snd (fold dedup_step extractedTexts ([], [])))"

datatype extract_error = SourceDirectoryMissing

text \<open>\<open>TextExtractor.extractTexts\<close>, with the clock reading \<open>now\<close>: the content written to
  \<open>extracted-text.json\<close>. The tree is \<open>None\<close> when the source directory does not exist.\<close>

definition extractTexts :: "(string \<Rightarrow> string \<Rightarrow> int) \<Rightarrow> (string \<Rightarrow> string \<Rightarrow> (string \<times> string) list) \<Rightarrow>
    string \<Rightarrow> string \<Rightarrow> dirent list option \<Rightarrow> extract_error + extracted_data" where
  "extractTexts localeCompare harvest now dir tree =
     (case tree of
        None \<Rightarrow> Inl SourceDirectoryMissing
      | Some entries \<Rightarrow>
          (case fold (TextExtractor_processFile harvest) (TextExtractor_scanDirectory [] entries) ([], 0) of
             (extractedTexts, processedFiles) \<Rightarrow>
               let uniqueTexts = removeDuplicates localeCompare extractedTexts in
               Inr \<lparr>ex_metadata = \<lparr>sourceDir = dir, extractedAt = now, filesProcessed = processedFiles,
                                   textsFound = length uniqueTexts\<rparr>,
                    ex_texts = uniqueTexts\<rparr>))"

section \<open>Sample inputs\<close>

definition sample_entry :: "string \<Rightarrow> string \<Rightarrow> string \<Rightarrow> cache_entry" where
  "sample_entry tx m tr =
     \<lparr>original = tx, translated = tr, entry_context = ''template'', model = m,
      targetLanguage = ''Deutsch'', createdAt = ''2024-12-20T08:00:00.000Z''\<rparr>"

definition sample_cache_file :: "cache_data parsed option" where
  "sample_cache_file =
     Some (Parsed \<lparr>version = ''1.0'', lastUpdated = ''2024-12-20T08:00:00.000Z'',
       cache_obj = Some
         [(''Hello World|gpt-4o-mini|Deutsch|template'', sample_entry ''Hello World'' ''gpt-4o-mini'' ''Hallo Welt''),
          (''Hello World|gpt-4|Deutsch|template'', sample_entry ''Hello World'' ''gpt-4'' ''Hallo, Welt''),
          (''Cancel|gpt-4|Deutsch|template'', sample_entry ''Cancel'' ''gpt-4'' [])]\<rparr>)"

definition sample_item :: "string \<Rightarrow> extracted_text" where
  "sample_item tx =
     \<lparr>item_text = tx, item_context = ''template'', item_line = 1, item_origin = SingleFile ''App.vue''\<rparr>"

definition sample_workdir :: workdir where
  "sample_workdir =
     \<lparr>cacheFile = sample_cache_file,
      extractedFile = Some (Parsed
        \<lparr>ex_metadata = \<lparr>sourceDir = ''apps/app-frontend'', extractedAt = ''2024-12-20T07:00:00.000Z'',
                        filesProcessed = 1, textsFound = 3\<rparr>,
         ex_texts = [sample_item ''Hello World'', sample_item ''Cancel'', sample_item ''Settings'']\<rparr>),
      translationsFile = None, mappingFile = None\<rparr>"

text \<open>A provider that answers the first request with two numbered lines and fails afterwards.\<close>

definition sample_world :: world where
  "sample_world =
     \<lparr>api_at = (\<lambda>n. if n = 0 then Content (''1. Abbrechen'' @ [CHR 0x0A] @ ''2. Settings'') else Failure),
      time_at = (\<lambda>n. ''2024-12-20T09:00:00.000Z'')\<rparr>"

text \<open>A provider whose batch request fails and whose next answer is a pair of quotes.\<close>

definition failing_world :: world where
  "failing_world =
     \<lparr>api_at = (\<lambda>n. if n = 0 then Failure else Content [CHR 0x22, CHR 0x22]),
      time_at = (\<lambda>n. ''2024-12-20T09:00:00.000Z'')\<rparr>"

text \<open>An extraction that found the texts \<open>__proto__\<close> and \<open>Cancel\<close>, and a provider that
  translates both.\<close>

definition proto_workdir :: workdir where
  "proto_workdir =
     \<lparr>cacheFile = None,
      extractedFile = Some (Parsed
        \<lparr>ex_metadata = \<lparr>sourceDir = ''apps/app-frontend'', extractedAt = ''2024-12-20T07:00:00.000Z'',
                        filesProcessed = 1, textsFound = 2\<rparr>,
         ex_texts = [sample_item ''__proto__'', sample_item ''Cancel'']\<rparr>),
      translationsFile = None, mappingFile = None\<rparr>"

definition proto_world :: world where
  "proto_world =
     \<lparr>api_at = (\<lambda>n. if n = 0 then Content (''1. Prototyp'' @ [CHR 0x0A] @ ''2. Abbrechen'') else Failure),
      time_at = (\<lambda>n. ''2024-12-20T09:00:00.000Z'')\<rparr>"

definition sample_mapping :: json where
  "sample_mapping =
     JObject [(''Hello World'', JString ''Hallo Welt''), (''Settings'', JString ''Settings''),
              (''OK'', JNull), ([], JString ''leer''), (''Cancel'', JString ''   ''),
              (''Save '', JString '' Speichern'')]"



text \<open>A source tree whose root lists \<open>package.json\<close> before the directory \<open>src\<close>.\<close>

definition sample_tree :: "dirent list" where
  "sample_tree =
     [File ''package.json'' ''{}'',
      Directory ''src'' [File ''App.vue'' ''Save'', File ''vite.config.ts'' ''export default {}'',
                        File ''main.ts'' '' Cancel '', File ''util.js'' ''Save'']]"

text \<open>A harvest that takes the whole content of a file as its one candidate, and the
  comparison of strings by code units.\<close>

definition sample_harvest :: "string \<Rightarrow> string \<Rightarrow> (string \<times> string) list" where
  "sample_harvest ext content = [(content, ''string'')]"

definition codeunit_compare :: "string \<Rightarrow> string \<Rightarrow> int" where
  "codeunit_compare a b = (if a < b then - 1 else if a = b then 0 else 1)"

definition sample_src :: "dirent list" where
  "sample_src =
     [Directory ''src'' [File ''App.vue'' ''Save'', File ''main.ts'' '' Cancel '', File ''util.js'' ''Save'',
                        File ''blank.js'' ''  '']]"

section \<open>Association lists\<close>

lemma set_update_subset: "set (AList.update k v al) \<subseteq> insert (k, v) (set al)"
  by (induction al) auto

section \<open>Properties of the translation cache\<close>

lemma admit_entry_set:
  "(key, e) \<in> set (fold (admit_entry t) entries c) \<Longrightarrow>
     (key, e) \<in> set c \<or> ((key, e) \<in> set entries \<and> model e = t_model t \<and> targetLanguage e = t_targetLanguage t)"
proof (induction entries arbitrary: c)
  case Nil
  then show ?case by simp
next
  case (Cons x xs)
  obtain k v where x: "x = (k, v)" by (cases x)
  from Cons.prems have "(key, e) \<in> set (fold (admit_entry t) xs (admit_entry t x c))" by simp
  from Cons.IH[OF this] show ?case
    using x set_update_subset[of k v c] by (auto simp: admit_entry_def split: if_splits)
qed

lemma loadCache_entries:
  assumes "(key, e) \<in> set (cache (loadCache cf t))" "cache t = []"
  shows "model e = t_model t \<and> targetLanguage e = t_targetLanguage t \<and> (key, e) \<in> set (existing_cache cf)"
  using assms
  by (auto simp: loadCache_def existing_cache_def split: option.splits parsed.splits if_splits
      dest!: admit_entry_set)

lemma AITranslator_config [simp]:
  "t_model (AITranslator m lang cf) = m" "t_targetLanguage (AITranslator m lang cf) = lang"
  by (auto simp: AITranslator_def loadCache_def split: option.splits parsed.splits)

lemma getCachedTranslation_state:
  "snd (getCachedTranslation t a b) =
     (if fst (getCachedTranslation t a b) = None then t else t\<lparr>cacheHits := cacheHits t + 1\<rparr>)"
  by (simp add: getCachedTranslation_def split: option.splits)

lemma getCachedTranslation_cacheHits [simp]:
  "fst (getCachedTranslation (t\<lparr>cacheHits := n\<rparr>) a b) = fst (getCachedTranslation t a b)"
  by (simp add: getCachedTranslation_def getCacheKey_def split: option.splits)

lemma is_hit_cacheHits [simp]: "is_hit (t\<lparr>cacheHits := n\<rparr>) = is_hit t"
  by (rule ext) (simp add: is_hit_def)

lemma separate_step_eq:
  "separate_step x (c, u, t) =
     (if is_hit t x then (c @ [x], u, t\<lparr>cacheHits := cacheHits t + 1\<rparr>) else (c, u @ [x], t))"
proof -
  obtain r t' where g: "getCachedTranslation t (item_text x) (item_context x) = (r, t')"
    by (cases "getCachedTranslation t (item_text x) (item_context x)")
  with getCachedTranslation_state[of t "item_text x" "item_context x"]
  have "t' = (if r = None then t else t\<lparr>cacheHits := cacheHits t + 1\<rparr>)" by simp
  with g show ?thesis by (cases r) (simp_all add: separate_step_def is_hit_def)
qed

lemma fold_separate_step:
  "fold separate_step texts (c, u, t) =
     (c @ filter (is_hit t) texts, u @ filter (\<lambda>x. \<not> is_hit t x) texts,
      t\<lparr>cacheHits := cacheHits t + length (filter (is_hit t) texts)\<rparr>)"
proof (induction texts arbitrary: c u t)
  case Nil
  then show ?case by simp
next
  case (Cons x xs)
  show ?case by (simp add: separate_step_eq Cons.IH)
qed

lemma cache_for_setCachedTranslation:
  "cache_for m lang t \<Longrightarrow> cache_for m lang (setCachedTranslation w a b c t)"
  using set_update_subset[of "getCacheKey t a c" _ "cache t"]
  by (fastforce simp: cache_for_def setCachedTranslation_def)

lemma cache_for_getCachedTranslation:
  "getCachedTranslation t a b = (r, t1) \<Longrightarrow> cache_for m lang t1 = cache_for m lang t"
  by (auto simp: getCachedTranslation_def cache_for_def split: option.splits if_splits)

lemma cache_for_callOpenAI:
  "callOpenAI w p t = (r, t1) \<Longrightarrow> cache_for m lang t1 = cache_for m lang t"
  by (auto simp: callOpenAI_def cache_for_def)

lemma cache_for_updates [simp]:
  "cache_for m lang (store_result x tr c e t) = cache_for m lang t"
  "cache_for m lang (t\<lparr>apiCalls := n\<rparr>) = cache_for m lang t"
  "cache_for m lang (t\<lparr>tick := n\<rparr>) = cache_for m lang t"
  "cache_for m lang (t\<lparr>cacheHits := n\<rparr>) = cache_for m lang t"
  "cache_for m lang (t\<lparr>totalCount := n\<rparr>) = cache_for m lang t"
  by (simp_all add: cache_for_def store_result_def)

lemma cache_for_translate_item:
  "cache_for m lang t \<Longrightarrow> cache_for m lang (translate_item w x t)"
  by (auto simp: translate_item_def Let_def cache_for_setCachedTranslation
      cache_for_getCachedTranslation cache_for_callOpenAI
      split: prod.splits option.splits api_result.splits)

lemma cache_for_fold:
  "(\<And>x t. cache_for m lang t \<Longrightarrow> cache_for m lang (f x t)) \<Longrightarrow> cache_for m lang t \<Longrightarrow>
     cache_for m lang (fold f xs t)"
  by (induction xs arbitrary: t) auto

lemma cache_for_store_batch_item:
  "cache_for m lang t \<Longrightarrow> cache_for m lang (store_batch_item w trs batch i t)"
  by (simp add: store_batch_item_def Let_def cache_for_setCachedTranslation)

lemma cache_for_translateBatch:
  "cache_for m lang t \<Longrightarrow> cache_for m lang (translateBatch w batch t)"
  by (auto simp: translateBatch_def translateBatchIndividually_def Let_def cache_for_callOpenAI
      intro!: cache_for_fold cache_for_translate_item cache_for_store_batch_item
      split: prod.splits api_result.splits)

lemma cache_for_process_cached:
  "cache_for m lang t \<Longrightarrow> cache_for m lang (process_cached x t)"
  by (auto simp: process_cached_def cache_for_getCachedTranslation split: prod.splits)

lemma cache_for_separateCachedTexts:
  "separateCachedTexts t texts = (c, u, t1) \<Longrightarrow> cache_for m lang t1 = cache_for m lang t"
  by (auto simp: separateCachedTexts_def fold_separate_step)

lemma cache_for_translateTexts:
  assumes "translateTexts w d t = Inr (d', t')" and "cache_for m lang t"
  shows "cache_for m lang t'"
proof (cases "extractedFile d")
  case None
  with assms show ?thesis by (simp add: translateTexts_def)
next
  case (Some p)
  show ?thesis
  proof (cases p)
    case Unparsable
    with Some assms show ?thesis by (simp add: translateTexts_def)
  next
    case (Parsed ex)
    show ?thesis
    proof (cases "ex_texts ex = []")
      case True
      with Some Parsed assms show ?thesis by (simp add: translateTexts_def)
    next
      case False
      obtain c u t1 where sep: "separateCachedTexts (t\<lparr>totalCount := length (ex_texts ex)\<rparr>) (ex_texts ex) = (c, u, t1)"
        by (cases "separateCachedTexts (t\<lparr>totalCount := length (ex_texts ex)\<rparr>) (ex_texts ex)") auto
      from cache_for_separateCachedTexts[OF sep] assms(2) have ok1: "cache_for m lang t1" by simp
      define t3 where "t3 = fold (translateBatch w) (batches_from u 10) (fold process_cached c t1)"
      have ok3: "cache_for m lang t3"
        unfolding t3_def
        by (intro cache_for_fold cache_for_translateBatch cache_for_process_cached ok1)
      from assms(1) Some Parsed False sep have "t' = t3\<lparr>tick := tick t3 + 1\<rparr>\<lparr>tick := tick t3 + 1 + 1\<rparr>"
        by (simp add: translateTexts_def Let_def t3_def)
      with ok3 show ?thesis by simp
    qed
  qed
qed

lemma cache_for_AITranslator: "cache_for m lang (AITranslator m lang cf)"
proof -
  have "model e = m \<and> targetLanguage e = lang" if "(k, e) \<in> set (cache (AITranslator m lang cf))" for k e
    using loadCache_entries[of k e cf "\<lparr>t_model = m, t_targetLanguage = lang, cache = [], t_translations = [],
        processedCount = 0, totalCount = 0, cacheHits = 0, apiCalls = 0, tick = 0,
        requests = []\<rparr>"] that
    by (simp add: AITranslator_def)
  then show ?thesis by (auto simp: cache_for_def)
qed

lemma sample_translator:
  "AITranslator ''gpt-4'' ''Deutsch'' sample_cache_file =
     \<lparr>t_model = ''gpt-4'', t_targetLanguage = ''Deutsch'',
      cache = [(''Hello World|gpt-4|Deutsch|template'', sample_entry ''Hello World'' ''gpt-4'' ''Hallo, Welt''),
               (''Cancel|gpt-4|Deutsch|template'', sample_entry ''Cancel'' ''gpt-4'' [])],
      t_translations = [], processedCount = 0, totalCount = 0, cacheHits = 0, apiCalls = 0, tick = 0,
        requests = []\<rparr>"
  by (simp add: AITranslator_def loadCache_def sample_cache_file_def admit_entry_def sample_entry_def)

text \<open>
  Claim C1 (cache isolation). After the constructor has loaded the cache file, every entry
  of the in-memory cache is an entry of the file whose \<open>model\<close> and \<open>targetLanguage\<close>
  equal the configured ones; so whatever text and context a lookup is made for, a hit
  returns the translation of such an entry, never that of an entry stored under another
  model or language. A run adds only entries of the configured model and language.
\<close>

theorem cache_isolation:
  assumes "t = AITranslator m lang cf"
  shows "(\<forall>key e. (key, e) \<in> set (cache t) \<longrightarrow>
            model e = m \<and> targetLanguage e = lang \<and> (key, e) \<in> set (existing_cache cf)) \<and>
         (\<forall>tx ctx tr t'. getCachedTranslation t tx ctx = (Some tr, t') \<longrightarrow>
            (\<exists>e. (getCacheKey t tx ctx, e) \<in> set (existing_cache cf) \<and>
                  model e = m \<and> targetLanguage e = lang \<and> translated e = tr)) \<and>
         (\<forall>w d d' t' key e. translateTexts w d t = Inr (d', t') \<and> (key, e) \<in> set (cache t') \<longrightarrow>
            model e = m \<and> targetLanguage e = lang)"
proof -
  have a: "model e = m \<and> targetLanguage e = lang \<and> (key, e) \<in> set (existing_cache cf)"
    if "(key, e) \<in> set (cache t)" for key e
    using loadCache_entries[of key e cf "\<lparr>t_model = m, t_targetLanguage = lang, cache = [], t_translations = [],
        processedCount = 0, totalCount = 0, cacheHits = 0, apiCalls = 0, tick = 0,
        requests = []\<rparr>"] that assms by (simp add: AITranslator_def)
  have b: "\<exists>e. (getCacheKey t tx ctx, e) \<in> set (existing_cache cf) \<and>
                  model e = m \<and> targetLanguage e = lang \<and> translated e = tr"
    if "getCachedTranslation t tx ctx = (Some tr, t')" for tx ctx tr t'
  proof -
    from that obtain e where "map_of (cache t) (getCacheKey t tx ctx) = Some e" "translated e = tr"
      by (auto simp: getCachedTranslation_def split: option.splits if_splits)
    then show ?thesis using a[of "getCacheKey t tx ctx" e] by (auto dest: map_of_SomeD)
  qed
  have c: "model e = m \<and> targetLanguage e = lang"
    if "translateTexts w d t = Inr (d', t')" "(key, e) \<in> set (cache t')" for w d d' t' key e
  proof -
    have "cache_for m lang t" unfolding assms by (rule cache_for_AITranslator)
    from cache_for_translateTexts[OF that(1) this] that(2) show ?thesis
      by (auto simp: cache_for_def)
  qed
  show ?thesis using a b c by blast
qed

theorem cache_isolation_witness:
  "(''Hello World|gpt-4|Deutsch|template'', sample_entry ''Hello World'' ''gpt-4'' ''Hallo, Welt'')
      \<in> set (cache (AITranslator ''gpt-4'' ''Deutsch'' sample_cache_file)) \<and>
   fst (getCachedTranslation (AITranslator ''gpt-4'' ''Deutsch'' sample_cache_file) ''Hello World'' ''template'')
      = Some ''Hallo, Welt'' \<and>
   (\<exists>e. (''Hello World|gpt-4|Deutsch|template'', e) \<in> set (existing_cache sample_cache_file) \<and>
        model e = ''gpt-4'' \<and> targetLanguage e = ''Deutsch'' \<and> translated e = ''Hallo, Welt'') \<and>
   (''Hello World|gpt-4o-mini|Deutsch|template'', sample_entry ''Hello World'' ''gpt-4o-mini'' ''Hallo Welt'')
      \<notin> set (cache (AITranslator ''gpt-4'' ''Deutsch'' sample_cache_file)) \<and>
   (\<exists>d' t'. translateTexts sample_world sample_workdir (AITranslator ''gpt-4'' ''Deutsch'' sample_cache_file)
        = Inr (d', t') \<and>
      map fst (cache t') = [''Hello World|gpt-4|Deutsch|template'', ''Cancel|gpt-4|Deutsch|template'',
                            ''Settings|gpt-4|Deutsch|template''] \<and>
      list_all (\<lambda>(key, e). model e = ''gpt-4'' \<and> targetLanguage e = ''Deutsch'') (cache t'))"
proof -
  let ?t = "AITranslator ''gpt-4'' ''Deutsch'' sample_cache_file"
  note iso = cache_isolation[of ?t "''gpt-4''" "''Deutsch''" sample_cache_file, OF refl]
  have m: "(''Hello World|gpt-4|Deutsch|template'', sample_entry ''Hello World'' ''gpt-4'' ''Hallo, Welt'')
      \<in> set (cache ?t)"
    by (simp add: sample_translator)
  have h: "getCachedTranslation ?t ''Hello World'' ''template'' = (Some ''Hallo, Welt'', ?t\<lparr>cacheHits := 1\<rparr>)"
    by (simp add: sample_translator getCachedTranslation_def getCacheKey_def sample_entry_def)
  have k: "getCacheKey ?t ''Hello World'' ''template'' = ''Hello World|gpt-4|Deutsch|template''"
    by (simp add: getCacheKey_def)
  from iso h k have e: "\<exists>e. (''Hello World|gpt-4|Deutsch|template'', e) \<in> set (existing_cache sample_cache_file) \<and>
        model e = ''gpt-4'' \<and> targetLanguage e = ''Deutsch'' \<and> translated e = ''Hallo, Welt''"
    by metis
  have n: "(''Hello World|gpt-4o-mini|Deutsch|template'', sample_entry ''Hello World'' ''gpt-4o-mini'' ''Hallo Welt'')
      \<notin> set (cache ?t)"
  proof
    assume "(''Hello World|gpt-4o-mini|Deutsch|template'', sample_entry ''Hello World'' ''gpt-4o-mini'' ''Hallo Welt'')
      \<in> set (cache ?t)"
    with iso have "model (sample_entry ''Hello World'' ''gpt-4o-mini'' ''Hallo Welt'') = ''gpt-4''" by blast
    then show False by (simp add: sample_entry_def)
  qed
  let ?run = "translateTexts sample_world sample_workdir ?t"
  have run: "?run = Inr (fst (projr ?run), snd (projr ?run))" by code_simp
  have keys: "map fst (cache (snd (projr ?run))) =
      [''Hello World|gpt-4|Deutsch|template'', ''Cancel|gpt-4|Deutsch|template'',
       ''Settings|gpt-4|Deutsch|template'']"
    by code_simp
  from iso run have "\<forall>key e. (key, e) \<in> set (cache (snd (projr ?run))) \<longrightarrow>
      model e = ''gpt-4'' \<and> targetLanguage e = ''Deutsch''"
    by blast
  then have all: "list_all (\<lambda>(key, e). model e = ''gpt-4'' \<and> targetLanguage e = ''Deutsch'')
      (cache (snd (projr ?run)))"
    by (auto simp: list_all_iff)
  have r: "\<exists>d' t'. ?run = Inr (d', t') \<and>
      map fst (cache t') = [''Hello World|gpt-4|Deutsch|template'', ''Cancel|gpt-4|Deutsch|template'',
                            ''Settings|gpt-4|Deutsch|template''] \<and>
      list_all (\<lambda>(key, e). model e = ''gpt-4'' \<and> targetLanguage e = ''Deutsch'') (cache t')"
  proof (intro exI conjI)
    show "?run = Inr (fst (projr ?run), snd (projr ?run))" by (rule run)
    show "map fst (cache (snd (projr ?run))) =
      [''Hello World|gpt-4|Deutsch|template'', ''Cancel|gpt-4|Deutsch|template'',
       ''Settings|gpt-4|Deutsch|template'']" by (rule keys)
    show "list_all (\<lambda>(key, e). model e = ''gpt-4'' \<and> targetLanguage e = ''Deutsch'')
      (cache (snd (projr ?run)))" by (rule all)
  qed
  from m h e n r show ?thesis by simp
qed

lemma map_of_merge_cache:
  "distinct (map fst mem) \<Longrightarrow> map_of (merge_cache mem ex) = map_of ex ++ map_of mem"
proof (induction mem arbitrary: ex)
  case Nil
  then show ?case by (simp add: merge_cache_def)
next
  case (Cons p mem)
  obtain k v where p: "p = (k, v)" by (cases p)
  with Cons.prems have k: "k \<notin> fst ` set mem" and d: "distinct (map fst mem)" by auto
  have "map_of (merge_cache (p # mem) ex) = map_of (merge_cache mem (AList.update k v ex))"
    by (simp add: merge_cache_def p)
  also have "\<dots> = (map_of ex)(k \<mapsto> v) ++ map_of mem"
    by (simp only: Cons.IH[OF d] update_conv')
  also have "\<dots> = map_of ex ++ map_of (p # mem)"
  proof (rule ext)
    fix z
    from k have "map_of mem k = None" by (simp add: map_of_eq_None_iff)
    then show "((map_of ex)(k \<mapsto> v) ++ map_of mem) z = (map_of ex ++ map_of (p # mem)) z"
      by (auto simp: map_add_def p split: option.splits)
  qed
  finally show ?case .
qed

lemma keys_merge_cache:
  "fst ` set (merge_cache mem ex) = fst ` set ex \<union> fst ` set mem"
proof (induction mem arbitrary: ex)
  case Nil
  then show ?case by (simp add: merge_cache_def)
next
  case (Cons p mem)
  obtain k v where p: "p = (k, v)" by (cases p)
  have "merge_cache (p # mem) ex = merge_cache mem (AList.update k v ex)"
    by (simp add: merge_cache_def p)
  then show ?case by (auto simp: Cons.IH dom_update p)
qed

lemma fold_update_present:
  "\<forall>(k, v) \<in> set ys. map_of m k = Some v \<Longrightarrow> fold (\<lambda>(key, entry) ex. AList.update key entry ex) ys m = m"
  by (induction ys) (auto simp: update_triv)

lemma merge_cache_idem:
  assumes "distinct (map fst mem)"
  shows "merge_cache mem (merge_cache mem ex) = merge_cache mem ex"
proof -
  have "\<forall>(k, v) \<in> set mem. map_of (merge_cache mem ex) k = Some v"
    using assms by (auto simp: map_of_merge_cache map_add_def split: option.splits)
  then show ?thesis
    unfolding merge_cache_def[of mem "merge_cache mem ex"] by (rule fold_update_present)
qed

text \<open>
  Claim C5, as amended. \<open>saveCache\<close> writes version 1.0, the clock reading, and the entries on
  disk overridden and extended by the entries in memory, so an entry on disk whose key is
  not in memory survives. Saving twice in a row gives the file that one save at the time
  of the second gives: the entries and their order are the same, \<open>lastUpdated\<close> is that
  of the second save. (The keys of a \<open>Map\<close> are distinct.)
\<close>

theorem saveCache_merges:
  assumes "distinct (map fst (cache t))"
  shows "(\<exists>entries. saveCache now t cf =
              Some (Parsed \<lparr>version = ''1.0'', lastUpdated = now, cache_obj = Some entries\<rparr>) \<and>
            map_of entries = map_of (existing_cache cf) ++ map_of (cache t) \<and>
            fst ` set entries = fst ` set (existing_cache cf) \<union> fst ` set (cache t)) \<and>
         saveCache now' t (saveCache now t cf) = saveCache now' t cf"
  using assms
  by (simp add: saveCache_def map_of_merge_cache keys_merge_cache existing_cache_def merge_cache_idem)

theorem saveCache_merges_witness:
  "distinct (map fst (cache (AITranslator ''gpt-4'' ''Deutsch'' sample_cache_file))) \<and>
   saveCache ''T2'' (AITranslator ''gpt-4'' ''Deutsch'' sample_cache_file)
     (saveCache ''T1'' (AITranslator ''gpt-4'' ''Deutsch'' sample_cache_file) sample_cache_file)
   = saveCache ''T2'' (AITranslator ''gpt-4'' ''Deutsch'' sample_cache_file) sample_cache_file"
proof -
  have d: "distinct (map fst (cache (AITranslator ''gpt-4'' ''Deutsch'' sample_cache_file)))"
    by (simp add: sample_translator)
  from saveCache_merges[OF d] d show ?thesis by blast
qed

text \<open>As stated, with the same file content after two saves as after one, C5 fails: the
  second save writes a later \<open>lastUpdated\<close>.\<close>

theorem saveCache_twice_counterexample:
  "saveCache ''2024-12-20T08:00:02.000Z'' (AITranslator ''gpt-4'' ''Deutsch'' sample_cache_file)
     (saveCache ''2024-12-20T08:00:01.000Z'' (AITranslator ''gpt-4'' ''Deutsch'' sample_cache_file) sample_cache_file)
   \<noteq> saveCache ''2024-12-20T08:00:01.000Z'' (AITranslator ''gpt-4'' ''Deutsch'' sample_cache_file) sample_cache_file"
  by (simp add: saveCache_def)

section \<open>Properties of a translation run\<close>

lemma pad_translations_eq:
  "pad_translations trs batch = trs @ map item_text (drop (length trs) batch)"
proof (induction trs batch rule: pad_translations.induct)
  case (1 trs originalBatch)
  show ?case
  proof (cases "length trs < length originalBatch")
    case True
    then have "drop (length trs) originalBatch = originalBatch ! length trs # drop (Suc (length trs)) originalBatch"
      by (simp add: Cons_nth_drop_Suc)
    with True 1 show ?thesis by (subst pad_translations.simps) simp
  next
    case False
    then show ?thesis by (subst pad_translations.simps) simp
  qed
qed

text \<open>What \<open>parseBatchResponse\<close> returns in general: the labeled lines in their order,
  followed by the original texts of the batch items beyond them.\<close>

lemma parseBatchResponse_padding:
  "length (parseBatchResponse response batch) = max (length (labeled_lines response)) (length batch) \<and>
   (\<forall>i < length (labeled_lines response). parseBatchResponse response batch ! i = labeled_lines response ! i) \<and>
   (\<forall>i. length (labeled_lines response) \<le> i \<and> i < length batch \<longrightarrow>
        parseBatchResponse response batch ! i = item_text (batch ! i))"
  by (auto simp: parseBatchResponse_def pad_translations_eq nth_append)

text \<open>
  Claim C4. The padding loop of \<open>parseBatchResponse\<close> only ever adds translations. A
  response with more numbered lines than the batch has items comes back whole: here a
  batch of one item gets two translations, not one.
\<close>

theorem parseBatchResponse_surplus:
  "parseBatchResponse (''1. Hallo'' @ [CHR 0x0A] @ ''2. Welt'') [sample_item ''Hello''] = [''Hallo'', ''Welt'']"
  by code_simp

lemma results_ok_store_result:
  "results_ok t \<Longrightarrow> results_ok (store_result x tr c e t)"
  using set_update_subset[of "item_text x" _ "t_translations t"]
  by (fastforce simp: results_ok_def store_result_def distinct_update)

lemma results_ok_getCachedTranslation:
  "getCachedTranslation t a b = (r, t1) \<Longrightarrow> results_ok t1 = results_ok t"
  by (auto simp: getCachedTranslation_def results_ok_def split: option.splits if_splits)

lemma results_ok_callOpenAI:
  "callOpenAI w p t = (r, t1) \<Longrightarrow> results_ok t1 = results_ok t"
  by (auto simp: callOpenAI_def results_ok_def)

lemma results_ok_updates [simp]:
  "results_ok (setCachedTranslation w a b c t) = results_ok t"
  "results_ok (t\<lparr>apiCalls := n\<rparr>) = results_ok t"
  "results_ok (t\<lparr>tick := n\<rparr>) = results_ok t"
  "results_ok (t\<lparr>cacheHits := n\<rparr>) = results_ok t"
  "results_ok (t\<lparr>totalCount := n\<rparr>) = results_ok t"
  by (simp_all add: results_ok_def setCachedTranslation_def)

lemma results_ok_translate_item:
  "results_ok t \<Longrightarrow> results_ok (translate_item w x t)"
  by (auto simp: translate_item_def Let_def results_ok_store_result
      results_ok_getCachedTranslation results_ok_callOpenAI
      split: prod.splits option.splits api_result.splits)

lemma results_ok_fold:
  "(\<And>x t. results_ok t \<Longrightarrow> results_ok (f x t)) \<Longrightarrow> results_ok t \<Longrightarrow> results_ok (fold f xs t)"
  by (induction xs arbitrary: t) auto

lemma results_ok_store_batch_item:
  "results_ok t \<Longrightarrow> results_ok (store_batch_item w trs batch i t)"
  by (simp add: store_batch_item_def Let_def results_ok_store_result)

lemma results_ok_translateBatch:
  "results_ok t \<Longrightarrow> results_ok (translateBatch w batch t)"
  by (auto simp: translateBatch_def translateBatchIndividually_def Let_def results_ok_callOpenAI
      intro!: results_ok_fold results_ok_translate_item results_ok_store_batch_item
      split: prod.splits api_result.splits)

lemma results_ok_process_cached:
  "results_ok t \<Longrightarrow> results_ok (process_cached x t)"
  by (auto simp: process_cached_def results_ok_getCachedTranslation results_ok_store_result
      split: prod.splits)

lemma keys_mapping_of_aux:
  "fst ` set (fold (\<lambda>(key, v) mappingData.
             if r_translated v \<noteq> Some (r_original v) then AList.update key (r_translated v) mappingData
             else mappingData) trs acc)
   = fst ` set acc \<union> {k. \<exists>v. (k, v) \<in> set trs \<and> r_translated v \<noteq> Some (r_original v)}"
proof (induction trs arbitrary: acc)
  case Nil
  then show ?case by simp
next
  case (Cons p trs)
  obtain k v where p: "p = (k, v)" by (cases p)
  show ?case by (auto simp: p Cons.IH dom_update)
qed

text \<open>The results of a run have distinct keys, so the key \<open>__proto__\<close> is assigned at
  most once, while the object still has its prototype: the assignment writes nothing,
  and the mapping is the one of the other results.\<close>

lemma mapping_of_aux:
  "distinct (map fst trs) \<Longrightarrow> b \<or> ''__proto__'' \<notin> fst ` set trs \<Longrightarrow>
   snd (fold (\<lambda>(key, v) mappingData.
             if r_translated v \<noteq> Some (r_original v) then assign_member key (r_translated v) mappingData
             else mappingData) trs (b, acc))
   = fold (\<lambda>(key, v) mappingData.
             if r_translated v \<noteq> Some (r_original v) then AList.update key (r_translated v) mappingData
             else mappingData) (filter (\<lambda>(key, v). key \<noteq> ''__proto__'') trs) acc"
proof (induction trs arbitrary: b acc)
  case Nil
  then show ?case by simp
next
  case (Cons p trs)
  obtain k v where p: "p = (k, v)" by (cases p)
  from Cons.prems(1) have d: "distinct (map fst trs)" and nk: "k \<notin> fst ` set trs"
    by (auto simp: p)
  show ?case
  proof (cases "k = ''__proto__''")
    case True
    with nk have free: "\<And>b'. b' \<or> ''__proto__'' \<notin> fst ` set trs" by simp
    from True Cons.prems(2) have b: "b" by (auto simp: p)
    show ?thesis
      using Cons.IH[OF d free] True b by (simp add: p assign_member_def)
  next
    case False
    from Cons.prems(2) False have "b \<or> ''__proto__'' \<notin> fst ` set trs" by (auto simp: p)
    from Cons.IH[OF d this] False show ?thesis by (simp add: p assign_member_def)
  qed
qed

lemma set_own_property_order [simp]: "set (own_property_order members) = set members"
  by (auto simp: own_property_order_def)

lemma mapping_of_plain:
  "distinct (map fst trs) \<Longrightarrow>
   set (mapping_of trs) = set (fold (\<lambda>(key, v) mappingData.
             if r_translated v \<noteq> Some (r_original v) then AList.update key (r_translated v) mappingData
             else mappingData) (filter (\<lambda>(key, v). key \<noteq> ''__proto__'') trs) [])"
  by (simp add: mapping_of_def mapping_of_aux)

lemma keys_mapping_of:
  "distinct (map fst trs) \<Longrightarrow>
   fst ` set (mapping_of trs) =
     {k. \<exists>v. (k, v) \<in> set trs \<and> r_translated v \<noteq> Some (r_original v) \<and> k \<noteq> ''__proto__''}"
  by (auto simp: mapping_of_plain keys_mapping_of_aux)

lemma map_of_mapping_of_aux:
  "distinct (map fst trs) \<Longrightarrow> fst ` set acc \<inter> fst ` set trs = {} \<Longrightarrow>
   map_of (fold (\<lambda>(key, v) mappingData.
             if r_translated v \<noteq> Some (r_original v) then AList.update key (r_translated v) mappingData
             else mappingData) trs acc) k
   = (case map_of trs k of
        Some v \<Rightarrow> if r_translated v \<noteq> Some (r_original v) then Some (r_translated v) else None
      | None \<Rightarrow> map_of acc k)"
proof (induction trs arbitrary: acc)
  case Nil
  then show ?case by simp
next
  case (Cons p trs)
  obtain k' v' where p: "p = (k', v')" by (cases p)
  from Cons.prems have d: "distinct (map fst trs)" and nk: "k' \<notin> fst ` set trs"
    and na: "k' \<notin> fst ` set acc" and dis: "fst ` set acc \<inter> fst ` set trs = {}"
    by (auto simp: p)
  have none: "map_of trs k' = None" "map_of acc k' = None"
    using nk na by (simp_all add: map_of_eq_None_iff)
  show ?case
  proof (cases "r_translated v' \<noteq> Some (r_original v')")
    case True
    have "fst ` set (AList.update k' (r_translated v') acc) \<inter> fst ` set trs = {}"
      using dis nk by (auto simp: dom_update)
    from Cons.IH[OF d this] True none show ?thesis
      by (auto simp: p update_conv' split: option.splits)
  next
    case False
    from Cons.IH[OF d dis] False none show ?thesis
      by (auto simp: p split: option.splits)
  qed
qed

text \<open>Everywhere else the mapping is as C2 says: a result whose original is not
  \<open>__proto__\<close> is a key of the mapping exactly when its translated value differs from
  its original, and every member of the mapping comes from such a result.\<close>

lemma mapping_of_results:
  assumes "results_ok t"
  shows "(\<forall>r \<in> set (map snd (t_translations t)).
            (r_original r \<in> fst ` set (mapping_of (t_translations t))) =
            (r_translated r \<noteq> Some (r_original r) \<and> r_original r \<noteq> ''__proto__'')) \<and>
         (\<forall>(k, v) \<in> set (mapping_of (t_translations t)).
            \<exists>r \<in> set (map snd (t_translations t)). r_original r = k \<and> r_translated r = v \<and> v \<noteq> Some k)"
proof (intro conjI ballI)
  from assms have d: "distinct (map fst (t_translations t))" by (simp add: results_ok_def)
  fix r assume "r \<in> set (map snd (t_translations t))"
  then obtain k where kr: "(k, r) \<in> set (t_translations t)" by auto
  with assms have k: "r_original r = k" by (auto simp: results_ok_def)
  from assms kr have uniq: "\<And>v. (k, v) \<in> set (t_translations t) \<Longrightarrow> v = r"
    by (auto simp: results_ok_def dest: eq_key_imp_eq_value)
  show "(r_original r \<in> fst ` set (mapping_of (t_translations t))) =
        (r_translated r \<noteq> Some (r_original r) \<and> r_original r \<noteq> ''__proto__'')"
  proof
    assume "r_original r \<in> fst ` set (mapping_of (t_translations t))"
    then obtain v where v: "(k, v) \<in> set (t_translations t)" "r_translated v \<noteq> Some (r_original v)"
        "k \<noteq> ''__proto__''"
      unfolding keys_mapping_of[OF d] k by blast
    from uniq[OF v(1)] v(2,3) show "r_translated r \<noteq> Some (r_original r) \<and> r_original r \<noteq> ''__proto__''"
      by (simp add: k)
  next
    assume "r_translated r \<noteq> Some (r_original r) \<and> r_original r \<noteq> ''__proto__''"
    with kr k have "k \<in> {k. \<exists>v. (k, v) \<in> set (t_translations t) \<and> r_translated v \<noteq> Some (r_original v) \<and>
        k \<noteq> ''__proto__''}"
      by auto
    then show "r_original r \<in> fst ` set (mapping_of (t_translations t))"
      unfolding keys_mapping_of[OF d] k .
  qed
next
  fix p assume p: "p \<in> set (mapping_of (t_translations t))"
  obtain k v where kv: "p = (k, v)" by (cases p)
  from assms have d: "distinct (map fst (t_translations t))" by (simp add: results_ok_def)
  let ?rest = "filter (\<lambda>(key, v). key \<noteq> ''__proto__'') (t_translations t)"
  from d have d': "distinct (map fst ?rest)" by (simp add: distinct_map_filter)
  define members where "members = fold (\<lambda>(key, v) mappingData.
             if r_translated v \<noteq> Some (r_original v) then AList.update key (r_translated v) mappingData
             else mappingData) ?rest []"
  have dm: "distinct (map fst members)"
    unfolding members_def
    by (rule fold_invariant[where Q="\<lambda>_. True"]) (auto simp: distinct_update)
  from p kv have "(k, v) \<in> set members" by (simp add: mapping_of_plain[OF d] members_def)
  with dm have "map_of members k = Some v" by simp
  then obtain r where r: "map_of ?rest k = Some r" "r_translated r \<noteq> Some (r_original r)" "v = r_translated r"
    using map_of_mapping_of_aux[OF d', of "[]" k]
    by (auto simp: members_def split: option.splits if_splits)
  from r(1) have "(k, r) \<in> set ?rest" by (rule map_of_SomeD)
  then have mem: "(k, r) \<in> set (t_translations t)" by simp
  with assms have "r_original r = k" by (auto simp: results_ok_def)
  with r have "r_original r = k \<and> r_translated r = v \<and> v \<noteq> Some k" by simp
  moreover from mem have "r \<in> set (map snd (t_translations t))" by force
  ultimately show "case p of (k, v) \<Rightarrow> \<exists>r \<in> set (map snd (t_translations t)). r_original r = k \<and> r_translated r = v \<and> v \<noteq> Some k"
    unfolding kv by blast
qed

lemma results_ok_AITranslator: "results_ok (AITranslator m lang cf)"
  by (simp add: AITranslator_def loadCache_def results_ok_def split: option.splits parsed.splits)

lemma results_ok_separateCachedTexts:
  "separateCachedTexts t texts = (c, u, t1) \<Longrightarrow> results_ok t1 = results_ok t"
  by (auto simp: separateCachedTexts_def fold_separate_step)

lemma translateTexts_results:
  assumes "translateTexts w d t = Inr (d', t')"
    and "extractedFile d = Some (Parsed ex)" and "ex_texts ex \<noteq> []" and "results_ok t"
  shows "results_ok t' \<and>
         translationsFile d' = Some \<lparr>td_metadata = td_metadata (the (translationsFile d')),
                                      td_translations = map snd (t_translations t')\<rparr> \<and>
         mappingFile d' = Some (mapping_of (t_translations t'))"
proof -
  obtain c u t1 where sep: "separateCachedTexts (t\<lparr>totalCount := length (ex_texts ex)\<rparr>) (ex_texts ex) = (c, u, t1)"
    by (cases "separateCachedTexts (t\<lparr>totalCount := length (ex_texts ex)\<rparr>) (ex_texts ex)") auto
  from results_ok_separateCachedTexts[OF sep] assms(4) have ok1: "results_ok t1" by simp
  define t3 where "t3 = fold (translateBatch w) (batches_from u 10) (fold process_cached c t1)"
  have ok3: "results_ok t3"
    unfolding t3_def
    by (intro results_ok_fold results_ok_translateBatch results_ok_process_cached ok1)
  from assms(1-3) sep have t': "t' = t3\<lparr>tick := tick t3 + 1\<rparr>\<lparr>tick := tick t3 + 1 + 1\<rparr>"
    and d': "d' = saveTranslations w ex (t3\<lparr>tick := tick t3 + 1\<rparr>)
                    (d\<lparr>cacheFile := saveCache (time_at w (tick t3)) t3 (cacheFile d)\<rparr>)"
    by (simp_all add: translateTexts_def Let_def t3_def)
  show ?thesis using ok3 by (simp add: t' d' saveTranslations_def)
qed

lemma mapping_exclusion_elsewhere:
  assumes "translateTexts w d (AITranslator m lang (cacheFile d)) = Inr (d', t')"
    and "extractedFile d = Some (Parsed ex)" and "ex_texts ex \<noteq> []"
  shows "\<exists>out mapping. translationsFile d' = Some out \<and> mappingFile d' = Some mapping \<and>
           (\<forall>r \<in> set (td_translations out).
              (r_original r \<in> fst ` set mapping) =
              (r_translated r \<noteq> Some (r_original r) \<and> r_original r \<noteq> ''__proto__'')) \<and>
           (\<forall>(k, v) \<in> set mapping.
              \<exists>r \<in> set (td_translations out). r_original r = k \<and> r_translated r = v \<and> v \<noteq> Some k)"
proof -
  from translateTexts_results[OF assms results_ok_AITranslator]
  have ok: "results_ok t'"
    and out: "translationsFile d' = Some \<lparr>td_metadata = td_metadata (the (translationsFile d')),
                                      td_translations = map snd (t_translations t')\<rparr>"
    and mp: "mappingFile d' = Some (mapping_of (t_translations t'))"
    by simp_all
  from mapping_of_results[OF ok] out mp show ?thesis
    by (intro exI[of _ "\<lparr>td_metadata = td_metadata (the (translationsFile d')),
                                      td_translations = map snd (t_translations t')\<rparr>"]
              exI[of _ "mapping_of (t_translations t')"]) simp
qed

text \<open>
  Claim C2 (mapping exclusion) fails for the text \<open>__proto__\<close>. The run below extracts
  the texts \<open>__proto__\<close> and \<open>Cancel\<close> and the provider translates both. Both results
  are in \<open>translations.json\<close> with a translated value that differs from the original,
  but \<open>translation-mapping.json\<close> has the key \<open>Cancel\<close> only: \<open>saveTranslations\<close>
  collects the mapping in a plain object, on which the assignment to \<open>__proto__\<close>
  writes no member, while the results themselves are kept in a \<open>Map\<close>.
\<close>

theorem proto_result_missing_from_mapping:
  "\<exists>d' t' out.
     translateTexts proto_world proto_workdir (AITranslator ''gpt-4'' ''Deutsch'' (cacheFile proto_workdir))
       = Inr (d', t') \<and>
     translationsFile d' = Some out \<and>
     map (\<lambda>r. (r_original r, r_translated r)) (td_translations out) =
       [(''__proto__'', Some ''Prototyp''), (''Cancel'', Some ''Abbrechen'')] \<and>
     mappingFile d' = Some [(''Cancel'', Some ''Abbrechen'')]"
proof -
  let ?run = "translateTexts proto_world proto_workdir (AITranslator ''gpt-4'' ''Deutsch'' (cacheFile proto_workdir))"
  have run: "?run = Inr (fst (projr ?run), snd (projr ?run))" by code_simp
  have out: "translationsFile (fst (projr ?run)) = Some (the (translationsFile (fst (projr ?run))))"
    by code_simp
  have res: "map (\<lambda>r. (r_original r, r_translated r)) (td_translations (the (translationsFile (fst (projr ?run))))) =
       [(''__proto__'', Some ''Prototyp''), (''Cancel'', Some ''Abbrechen'')]"
    by code_simp
  have mpv: "mappingFile (fst (projr ?run)) = Some [(''Cancel'', Some ''Abbrechen'')]"
    by code_simp
  from run out res mpv show ?thesis
    by (intro exI[of _ "fst (projr ?run)"] exI[of _ "snd (projr ?run)"]
              exI[of _ "the (translationsFile (fst (projr ?run)))"]) simp
qed

text \<open>The two paths that keep the invariant of a translation result: the batch path
  stores a non-empty translation for a non-empty text, and a failed individual request
  stores the original text with the error flag.\<close>

lemma batch_item_result:
  assumes "item_text (batch ! i) \<noteq> []"
  shows "\<exists>tr. tr \<noteq> [] \<and>
     map_of (t_translations (store_batch_item w trs batch i t)) (item_text (batch ! i)) =
       Some \<lparr>r_original = item_text (batch ! i), r_translated = Some tr, r_context = item_context (batch ! i),
             r_files = files_of (batch ! i), fromCache = False, r_error = False\<rparr>"
  using assms
  by (auto simp: store_batch_item_def store_result_def setCachedTranslation_def Let_def update_conv')

lemma failed_item_result:
  assumes "fst (getCachedTranslation t (item_text x) (item_context x)) = None"
    and "api_at w (tick t) = Failure \<or> api_at w (tick t) = NonString"
  shows "map_of (t_translations (translate_item w x t)) (item_text x) =
       Some \<lparr>r_original = item_text x, r_translated = Some (item_text x), r_context = item_context x,
             r_files = files_of x, fromCache = False, r_error = True\<rparr>"
proof -
  from assms(1) have "getCachedTranslation t (item_text x) (item_context x) = (None, t)"
    by (auto simp: getCachedTranslation_def split: option.splits if_splits)
  with assms(2) show ?thesis
    by (auto simp: translate_item_def callOpenAI_def store_result_def update_conv')
qed

text \<open>
  Claim C6. When the batch request fails, \<open>translateBatchIndividually\<close> stores whatever
  \<open>translateSingle\<close> returns. For an answer that is only a pair of quotes this is the
  empty string: the result has an empty \<open>translated\<close> and no \<open>error\<close> flag, where the
  batch path would have fallen back on the original text.
\<close>

theorem individual_retry_stores_empty_translation:
  "map (\<lambda>(k, r). (k, r_original r, r_translated r, fromCache r, r_error r))
     (t_translations (translateBatch failing_world [sample_item ''Save'']
        (AITranslator ''gpt-4'' ''Deutsch'' None)))
   = [(''Save'', ''Save'', Some [], False, False)]"
  by code_simp

section \<open>The requests of a run\<close>

lemma sublist_join: "x \<in> set xs \<Longrightarrow> sublist x (join sep xs)"
proof (induction sep xs rule: join.induct)
  case (1 sep)
  then show ?case by simp
next
  case (2 sep y)
  then show ?case by simp
next
  case (3 sep y z zs)
  show ?case
  proof (cases "x = y")
    case True
    then show ?thesis by (simp add: sublist_append_rightI)
  next
    case False
    with 3 have "sublist x (join sep (z # zs))" by simp
    moreover have "sublist (join sep (z # zs)) ((y @ sep) @ join sep (z # zs))"
      by (rule sublist_append_leftI)
    ultimately have "sublist x ((y @ sep) @ join sep (z # zs))"
      by (rule sublist_order.order_trans)
    then show ?thesis by simp
  qed
qed

text \<open>The text of a batch prompt has the numbered line of every text of the batch.\<close>

lemma batch_prompt_line:
  assumes "i < length batch"
  shows "sublist (index_string (i + 1) @ ''. '' @ in_quotes (item_text (batch ! i)))
           (prompt_text (BatchPrompt lang batch))"
proof -
  define f where "f = (\<lambda>(item :: extracted_text, index). index_string (index + 1) @ ''. '' @ in_quotes (item_text item))"
  define textList where "textList = join [CHR 0x0A] (map f (zip batch [0..<length batch]))"
  from assms have "(batch ! i, i) \<in> set (zip batch [0..<length batch])"
    by (auto simp: set_zip)
  then have "f (batch ! i, i) \<in> set (map f (zip batch [0..<length batch]))"
    by (simp only: set_map) (rule imageI)
  then have "sublist (f (batch ! i, i)) textList"
    unfolding textList_def by (rule sublist_join)
  moreover have "sublist textList (prompt_text (BatchPrompt lang batch))"
    unfolding prompt_text.simps Let_def textList_def[symmetric] f_def[symmetric]
    by (rule sublist_join) simp
  ultimately have "sublist (f (batch ! i, i)) (prompt_text (BatchPrompt lang batch))"
    by (rule sublist_order.order_trans)
  then show ?thesis by (simp add: f_def)
qed

lemma is_hit_totalCount [simp]: "is_hit (t\<lparr>totalCount := n\<rparr>) = is_hit t"
  by (rule ext) (simp add: is_hit_def getCachedTranslation_def getCacheKey_def split: option.splits)

lemma translate_item_requests:
  "prefix (requests t) (requests (translate_item w x t)) \<and>
   t_targetLanguage (translate_item w x t) = t_targetLanguage t"
  by (auto simp: translate_item_def callOpenAI_def getCachedTranslation_def store_result_def
      setCachedTranslation_def Let_def split: option.splits api_result.splits)

lemma fold_requests:
  assumes "\<And>x t. prefix (requests t) (requests (f x t)) \<and> t_targetLanguage (f x t) = t_targetLanguage t"
  shows "prefix (requests t) (requests (fold f xs t)) \<and> t_targetLanguage (fold f xs t) = t_targetLanguage t"
proof (induction xs arbitrary: t)
  case Nil
  then show ?case by simp
next
  case (Cons x xs)
  from assms[of t x] Cons.IH[of "f x t"] show ?case
    by (auto intro: prefix_order.order_trans)
qed

lemma fold_same_requests:
  assumes "\<And>x t. requests (f x t) = requests t \<and> t_targetLanguage (f x t) = t_targetLanguage t"
  shows "requests (fold f xs t) = requests t \<and> t_targetLanguage (fold f xs t) = t_targetLanguage t"
proof (induction xs arbitrary: t)
  case Nil
  then show ?case by simp
next
  case (Cons x xs)
  from assms[of x t] Cons.IH[of "f x t"] show ?case by simp
qed

lemma store_batch_item_requests:
  "requests (store_batch_item w trs batch i t) = requests t \<and>
   t_targetLanguage (store_batch_item w trs batch i t) = t_targetLanguage t"
  by (simp add: store_batch_item_def store_result_def setCachedTranslation_def Let_def)

lemma process_cached_requests:
  "requests (process_cached x t) = requests t \<and>
   t_targetLanguage (process_cached x t) = t_targetLanguage t"
  by (auto simp: process_cached_def getCachedTranslation_def store_result_def split: option.splits)

text \<open>\<open>translateBatch\<close> first sends the prompt of its batch.\<close>

lemma translateBatch_requests:
  "prefix (requests t @ [createBatchPrompt t batch]) (requests (translateBatch w batch t)) \<and>
   t_targetLanguage (translateBatch w batch t) = t_targetLanguage t"
proof -
  define p where "p = createBatchPrompt t batch"
  define t1 where "t1 = t\<lparr>tick := tick t + 1, requests := requests t @ [p]\<rparr>"
  have c: "callOpenAI w p t = (api_at w (tick t), t1)" by (simp add: callOpenAI_def t1_def)
  have r1: "requests t1 = requests t @ [p]" "t_targetLanguage t1 = t_targetLanguage t"
    by (simp_all add: t1_def)
  show ?thesis
  proof (cases "api_at w (tick t)")
    case Failure
    with c have "translateBatch w batch t = fold (translate_item w) batch t1"
      by (simp add: translateBatch_def translateBatchIndividually_def p_def)
    with fold_requests[where f = "translate_item w" and t = t1 and xs = batch, OF translate_item_requests] r1
    show ?thesis by (simp add: p_def)
  next
    case NonString
    define t2 where "t2 = t1\<lparr>apiCalls := apiCalls t1 + 1\<rparr>"
    from NonString c have "translateBatch w batch t = fold (translate_item w) batch t2"
      by (simp add: translateBatch_def translateBatchIndividually_def p_def t2_def)
    with fold_requests[where f = "translate_item w" and t = t2 and xs = batch, OF translate_item_requests] r1
    show ?thesis by (simp add: p_def t2_def)
  next
    case (Content response)
    define t2 where "t2 = t1\<lparr>apiCalls := apiCalls t1 + 1\<rparr>"
    define trs where "trs = parseBatchResponse response batch"
    from Content c have "translateBatch w batch t = fold (store_batch_item w trs batch) [0..<length batch] t2"
      by (simp add: translateBatch_def p_def t2_def trs_def Let_def)
    with fold_same_requests[where f = "store_batch_item w trs batch" and t = t2 and xs = "[0..<length batch]", OF store_batch_item_requests] r1
    show ?thesis by (simp add: p_def t2_def)
  qed
qed

lemma fold_translateBatch_requests:
  "b \<in> set bs \<Longrightarrow>
     createBatchPrompt t b \<in> set (drop (length (requests t)) (requests (fold (translateBatch w) bs t)))"
proof (induction bs arbitrary: t)
  case Nil
  then show ?case by simp
next
  case (Cons a bs)
  define t1 where "t1 = translateBatch w a t"
  define fin where "fin = fold (translateBatch w) bs t1"
  have p1: "prefix (requests t @ [createBatchPrompt t a]) (requests t1)"
    and l1: "t_targetLanguage t1 = t_targetLanguage t"
    using translateBatch_requests[of t a w] by (simp_all add: t1_def)
  have "\<And>x t. prefix (requests t) (requests (translateBatch w x t)) \<and>
      t_targetLanguage (translateBatch w x t) = t_targetLanguage t"
    using translateBatch_requests by (blast dest: append_prefixD)
  from fold_requests[where f = "translateBatch w" and t = t1 and xs = bs, OF this]
  have p2: "prefix (requests t1) (requests fin)" by (simp add: fin_def)
  have fin: "fold (translateBatch w) (a # bs) t = fin" by (simp add: fin_def t1_def)
  show ?case
  proof (cases "b = a")
    case True
    from p1 p2 have "prefix (requests t @ [createBatchPrompt t a]) (requests fin)"
      by (rule prefix_order.order_trans)
    then obtain zs where "requests fin = (requests t @ [createBatchPrompt t a]) @ zs"
      by (auto elim: prefixE)
    then have "drop (length (requests t)) (requests fin) = createBatchPrompt t a # zs" by simp
    with True show ?thesis unfolding fin by simp
  next
    case False
    with Cons.prems have "b \<in> set bs" by simp
    from Cons.IH[OF this, of t1]
    have "createBatchPrompt t1 b \<in> set (drop (length (requests t1)) (requests fin))"
      by (simp add: fin_def)
    moreover have "createBatchPrompt t1 b = createBatchPrompt t b"
      by (simp add: createBatchPrompt_def l1)
    moreover from p1 have "length (requests t) \<le> length (requests t1)"
      by (auto dest: prefix_length_le)
    then have "set (drop (length (requests t1)) (requests fin)) \<subseteq> set (drop (length (requests t)) (requests fin))"
      by (rule set_drop_subset_set_drop)
    ultimately show ?thesis unfolding fin by auto
  qed
qed

lemma batches_from_covers:
  "x \<in> set xs \<Longrightarrow> 0 < n \<Longrightarrow> \<exists>b \<in> set (batches_from xs n). x \<in> set b"
proof (induction xs n rule: batches_from.induct)
  case (1 xs n)
  from "1.prems" have ne: "\<not> (xs = [] \<or> n = 0)" by auto
  then have bf: "batches_from xs n = take n xs # batches_from (drop n xs) n"
    by (subst batches_from.simps) simp
  from "1.prems"(1) have "x \<in> set (take n xs @ drop n xs)" by simp
  then consider "x \<in> set (take n xs)" | "x \<in> set (drop n xs)" by (auto simp only: set_append Un_iff)
  then show ?case
  proof cases
    case 1
    then show ?thesis by (simp add: bf)
  next
    case 2
    from "1.IH"[OF ne 2 "1.prems"(2)] show ?thesis by (auto simp: bf)
  qed
qed

text \<open>
  Claim C10. An entry of the cache whose \<open>translated\<close> field is the empty string is never a
  hit, although its key matches: \<open>getCachedTranslation\<close> returns \<open>null\<close> and counts
  nothing, and \<open>separateCachedTexts\<close> puts the text among the uncached ones. The run
  then returns, and among the requests it has sent to the provider is the prompt of a
  batch of uncached texts that has this text, whose text carries the numbered line of
  the text in quotes.
\<close>

theorem empty_translation_is_a_miss:
  assumes e: "map_of (cache t) (getCacheKey t (item_text x) (item_context x)) = Some e"
    and em: "translated e = []"
    and ex: "extractedFile d = Some (Parsed ex)"
    and x: "x \<in> set (ex_texts ex)"
  shows "getCachedTranslation t (item_text x) (item_context x) = (None, t) \<and>
         x \<in> set (fst (snd (separateCachedTexts t (ex_texts ex)))) \<and>
         x \<notin> set (fst (separateCachedTexts t (ex_texts ex))) \<and>
         (\<exists>d' t' batch i.
            translateTexts w d t = Inr (d', t') \<and>
            batch \<in> set (batches_from (fst (snd (separateCachedTexts t (ex_texts ex)))) 10) \<and>
            i < length batch \<and> batch ! i = x \<and>
            createBatchPrompt t batch \<in> set (drop (length (requests t)) (requests t')) \<and>
            sublist (index_string (i + 1) @ ''. '' @ in_quotes (item_text x))
              (prompt_text (createBatchPrompt t batch)))"
proof -
  define texts where "texts = ex_texts ex"
  define c where "c = filter (is_hit t) texts"
  define u where "u = filter (\<lambda>x. \<not> is_hit t x) texts"
  from e em have miss: "getCachedTranslation t (item_text x) (item_context x) = (None, t)"
    by (simp add: getCachedTranslation_def)
  then have nohit: "\<not> is_hit t x" by (simp add: is_hit_def)
  have sep0: "fst (separateCachedTexts t texts) = c" "fst (snd (separateCachedTexts t texts)) = u"
    by (simp_all add: separateCachedTexts_def fold_separate_step c_def u_def)
  from x nohit have xu: "x \<in> set u" and xc: "x \<notin> set c" by (simp_all add: u_def c_def texts_def)
  from batches_from_covers[OF xu, of 10] obtain batch where
    batch: "batch \<in> set (batches_from u 10)" "x \<in> set batch" by auto
  from batch(2) obtain i where i: "i < length batch" "batch ! i = x" by (auto simp: in_set_conv_nth)
  define t0 where "t0 = t\<lparr>totalCount := length texts\<rparr>"
  define t1 where "t1 = t0\<lparr>cacheHits := cacheHits t0 + length c\<rparr>"
  have sep: "separateCachedTexts t0 texts = (c, u, t1)"
    by (simp add: separateCachedTexts_def fold_separate_step c_def u_def t0_def t1_def)
  define t2 where "t2 = fold process_cached c t1"
  define t3 where "t3 = fold (translateBatch w) (batches_from u 10) t2"
  have r1: "requests t1 = requests t" "t_targetLanguage t1 = t_targetLanguage t"
    by (simp_all add: t1_def t0_def)
  from fold_same_requests[where f = process_cached and t = t1 and xs = c, OF process_cached_requests] r1
  have r2: "requests t2 = requests t" "t_targetLanguage t2 = t_targetLanguage t"
    by (simp_all add: t2_def)
  from fold_translateBatch_requests[OF batch(1), of t2 w]
  have "createBatchPrompt t2 batch \<in> set (drop (length (requests t2)) (requests t3))"
    by (simp add: t3_def)
  moreover have "createBatchPrompt t2 batch = createBatchPrompt t batch"
    by (simp add: createBatchPrompt_def r2)
  ultimately have sent: "createBatchPrompt t batch \<in> set (drop (length (requests t)) (requests t3))"
    by (simp add: r2)
  from x have ne: "texts \<noteq> []" by (auto simp: texts_def)
  define t4 where "t4 = t3\<lparr>tick := tick t3 + 1\<rparr>"
  define d1 where "d1 = d\<lparr>cacheFile := saveCache (time_at w (tick t3)) t3 (cacheFile d)\<rparr>"
  have run: "translateTexts w d t = Inr (saveTranslations w ex t4 d1, t4\<lparr>tick := tick t4 + 1\<rparr>)"
    using ex ne sep
    by (simp add: translateTexts_def Let_def texts_def[symmetric] t0_def[symmetric]
        t2_def t3_def t4_def d1_def)
  have line: "sublist (index_string (i + 1) @ ''. '' @ in_quotes (item_text x))
              (prompt_text (createBatchPrompt t batch))"
    using batch_prompt_line[OF i(1), of "t_targetLanguage t"] i(2)
    by (simp add: createBatchPrompt_def)
  have "\<exists>d' t' batch i.
            translateTexts w d t = Inr (d', t') \<and>
            batch \<in> set (batches_from u 10) \<and>
            i < length batch \<and> batch ! i = x \<and>
            createBatchPrompt t batch \<in> set (drop (length (requests t)) (requests t')) \<and>
            sublist (index_string (i + 1) @ ''. '' @ in_quotes (item_text x))
              (prompt_text (createBatchPrompt t batch))"
    apply (rule exI[of _ "saveTranslations w ex t4 d1"], rule exI[of _ "t4\<lparr>tick := tick t4 + 1\<rparr>"])
    apply (rule exI[of _ batch], rule exI[of _ i])
    using run batch(1) i sent line by (simp add: t4_def)
  with miss xu xc sep0 show ?thesis by (simp add: texts_def)
qed

theorem empty_translation_is_a_miss_witness:
  "map_of (cache (AITranslator ''gpt-4'' ''Deutsch'' sample_cache_file))
      (getCacheKey (AITranslator ''gpt-4'' ''Deutsch'' sample_cache_file) ''Cancel'' ''template'')
      = Some (sample_entry ''Cancel'' ''gpt-4'' []) \<and>
   fst (getCachedTranslation (AITranslator ''gpt-4'' ''Deutsch'' sample_cache_file) ''Cancel'' ''template'') = None \<and>
   sample_item ''Cancel'' \<in> set (fst (snd (separateCachedTexts (AITranslator ''gpt-4'' ''Deutsch'' sample_cache_file)
      [sample_item ''Hello World'', sample_item ''Cancel'', sample_item ''Settings'']))) \<and>
   (\<exists>d' t'. translateTexts sample_world sample_workdir (AITranslator ''gpt-4'' ''Deutsch'' sample_cache_file)
        = Inr (d', t') \<and>
      requests t' = [BatchPrompt ''Deutsch'' [sample_item ''Cancel'', sample_item ''Settings'']]) \<and>
   sublist (''1. '' @ in_quotes ''Cancel'')
     (prompt_text (BatchPrompt ''Deutsch'' [sample_item ''Cancel'', sample_item ''Settings'']))"
proof -
  let ?t = "AITranslator ''gpt-4'' ''Deutsch'' sample_cache_file"
  let ?x = "sample_item ''Cancel''"
  let ?ex = "\<lparr>ex_metadata = \<lparr>sourceDir = ''apps/app-frontend'', extractedAt = ''2024-12-20T07:00:00.000Z'',
                        filesProcessed = 1, textsFound = 3\<rparr>,
         ex_texts = [sample_item ''Hello World'', sample_item ''Cancel'', sample_item ''Settings'']\<rparr>"
  let ?run = "translateTexts sample_world sample_workdir ?t"
  let ?b = "[sample_item ''Cancel'', sample_item ''Settings'']"
  have xs: "item_text ?x = ''Cancel''" "item_context ?x = ''template''" by (simp_all add: sample_item_def)
  have a: "map_of (cache ?t) (getCacheKey ?t (item_text ?x) (item_context ?x)) = Some (sample_entry ''Cancel'' ''gpt-4'' [])"
    by (simp add: sample_translator getCacheKey_def xs)
  have b: "translated (sample_entry ''Cancel'' ''gpt-4'' []) = []" by (simp add: sample_entry_def)
  have ex: "extractedFile sample_workdir = Some (Parsed ?ex)" by (simp add: sample_workdir_def)
  have c: "?x \<in> set (ex_texts ?ex)" by simp
  have rq0: "requests ?t = []" by (simp add: sample_translator)
  have lang: "t_targetLanguage ?t = ''Deutsch''" by simp
  have rq: "requests (snd (projr ?run)) = [BatchPrompt ''Deutsch'' ?b]" by code_simp
  have one: "index_string (0 + 1) = ''1''" by code_simp
  have diff: "sample_item ''Settings'' \<noteq> ?x" by (simp add: sample_item_def)
  from empty_translation_is_a_miss[OF a b ex c, of sample_world]
  obtain d' t' batch i where
    miss: "getCachedTranslation ?t (item_text ?x) (item_context ?x) = (None, ?t)"
    and unc: "?x \<in> set (fst (snd (separateCachedTexts ?t (ex_texts ?ex))))"
    and run: "?run = Inr (d', t')"
    and i: "i < length batch" "batch ! i = ?x"
    and sent: "createBatchPrompt ?t batch \<in> set (drop (length (requests ?t)) (requests t'))"
    and line: "sublist (index_string (i + 1) @ ''. '' @ in_quotes (item_text ?x))
              (prompt_text (createBatchPrompt ?t batch))"
    by blast
  from run rq have rq': "requests t' = [BatchPrompt ''Deutsch'' ?b]" by simp
  with sent rq0 have batch: "batch = ?b" by (simp add: createBatchPrompt_def)
  from i diff have "i = 0" by (cases i) (auto simp: batch)
  with line one have l: "sublist (''1. '' @ in_quotes ''Cancel'') (prompt_text (BatchPrompt ''Deutsch'' ?b))"
    by (simp add: batch createBatchPrompt_def xs)
  have r: "\<exists>d' t'. ?run = Inr (d', t') \<and> requests t' = [BatchPrompt ''Deutsch'' ?b]"
    using run rq' by blast
  from a miss unc r l show ?thesis by (simp add: xs)
qed

section \<open>Properties of the replacer\<close>

subsection \<open>The mapping\<close>

lemma trim_Nil [simp]: "trim [] = []"
  by (simp add: trim_def)

lemma valid_mapping_iff:
  "valid_mapping orig v = (\<exists>tr. v = JString tr \<and> trim orig \<noteq> [] \<and> trim tr \<noteq> [] \<and> orig \<noteq> tr)"
  by (cases v) (auto simp: valid_mapping_def)

lemma add_mapping_eq:
  "add_mapping (orig, v) (reps, n) =
     (if valid_mapping orig v then (AList.update (trim orig) (trim (case v of JString tr \<Rightarrow> tr | _ \<Rightarrow> [])) reps, n + 1)
      else (reps, n))"
  by (cases v) (simp_all add: add_mapping_def valid_mapping_def)

lemma fold_add_mapping_count:
  "snd (fold add_mapping es (reps, n)) = n + length (filter (\<lambda>(orig, v). valid_mapping orig v) es)"
proof (induction es arbitrary: reps n)
  case Nil
  then show ?case by simp
next
  case (Cons e es)
  obtain orig v where e: "e = (orig, v)" by (cases e)
  show ?case by (simp add: e add_mapping_eq Cons.IH)
qed

lemma fold_add_mapping_keys:
  "fst ` set (fst (fold add_mapping es (reps, n))) =
     fst ` set reps \<union> {trim orig | orig v. (orig, v) \<in> set es \<and> valid_mapping orig v}"
proof (induction es arbitrary: reps n)
  case Nil
  then show ?case by simp
next
  case (Cons e es)
  obtain orig v where e: "e = (orig, v)" by (cases e)
  show ?case by (auto simp: e add_mapping_eq Cons.IH dom_update)
qed

lemma fold_add_mapping_members:
  "(k, t) \<in> set (fst (fold add_mapping es (reps, n))) \<Longrightarrow>
     (k, t) \<in> set reps \<or>
     (\<exists>orig tr. (orig, JString tr) \<in> set es \<and> valid_mapping orig (JString tr) \<and> k = trim orig \<and> t = trim tr)"
proof (induction es arbitrary: reps n)
  case Nil
  then show ?case by simp
next
  case (Cons e es)
  obtain orig v where e: "e = (orig, v)" by (cases e)
  show ?case
  proof (cases "valid_mapping orig v")
    case True
    then obtain tr where v: "v = JString tr" by (auto simp: valid_mapping_iff)
    from True have True': "valid_mapping orig (JString tr)" by (simp add: v)
    from Cons.prems have "(k, t) \<in> set (fst (fold add_mapping es (AList.update (trim orig) (trim tr) reps, n + 1)))"
      by (simp add: e v add_mapping_eq True')
    from Cons.IH[OF this] show ?thesis
      using set_update_subset[of "trim orig" "trim tr" reps] True' by (auto simp: e v)
  next
    case False
    from Cons.prems have "(k, t) \<in> set (fst (fold add_mapping es (reps, n)))"
      by (simp add: e add_mapping_eq False)
    from Cons.IH[OF this] show ?thesis by (auto simp: e)
  qed
qed

text \<open>
  Claim C9 (mapping validation). For a mapping artifact that is an object the load never
  aborts. Every pair it retains comes, trimmed, from a member whose value is a string,
  whose two sides are non-empty after trimming and differ from each other; the count
  \<open>validMappings\<close> is the number of such members, and the retained keys are exactly their
  trimmed originals. Every other member is dropped.
\<close>

theorem mapping_validation:
  assumes "is_object d"
  shows "\<exists>reps n. loadTranslationMapping (Some (Parsed d)) = Inr (reps, n) \<and>
     (\<forall>(k, t) \<in> set reps. \<exists>orig tr. (orig, JString tr) \<in> set (object_entries d) \<and>
         k = trim orig \<and> t = trim tr \<and> trim orig \<noteq> [] \<and> trim tr \<noteq> [] \<and> orig \<noteq> tr) \<and>
     n = length (filter (\<lambda>(orig, v). \<exists>tr. v = JString tr \<and> trim orig \<noteq> [] \<and> trim tr \<noteq> [] \<and> orig \<noteq> tr)
                  (object_entries d)) \<and>
     fst ` set reps = {trim orig | orig v. (orig, v) \<in> set (object_entries d) \<and>
         (\<exists>tr. v = JString tr \<and> trim orig \<noteq> [] \<and> trim tr \<noteq> [] \<and> orig \<noteq> tr)}"
proof -
  let ?r = "fold add_mapping (object_entries d) ([], 0)"
  from assms have load: "loadTranslationMapping (Some (Parsed d)) = Inr (fst ?r, snd ?r)"
    by (simp add: loadTranslationMapping_def)
  have members: "\<forall>(k, t) \<in> set (fst ?r). \<exists>orig tr. (orig, JString tr) \<in> set (object_entries d) \<and>
         k = trim orig \<and> t = trim tr \<and> trim orig \<noteq> [] \<and> trim tr \<noteq> [] \<and> orig \<noteq> tr"
    using fold_add_mapping_members[of _ _ "object_entries d" "[]" 0]
    by (fastforce simp: valid_mapping_iff)
  have count: "snd ?r = length (filter (\<lambda>(orig, v). \<exists>tr. v = JString tr \<and> trim orig \<noteq> [] \<and> trim tr \<noteq> [] \<and> orig \<noteq> tr)
                  (object_entries d))"
    by (simp add: fold_add_mapping_count valid_mapping_iff)
  have keys: "fst ` set (fst ?r) = {trim orig | orig v. (orig, v) \<in> set (object_entries d) \<and>
         (\<exists>tr. v = JString tr \<and> trim orig \<noteq> [] \<and> trim tr \<noteq> [] \<and> orig \<noteq> tr)}"
    by (simp add: fold_add_mapping_keys valid_mapping_iff)
  from load members count keys show ?thesis by blast
qed

theorem mapping_validation_witness:
  "is_object sample_mapping \<and>
   loadTranslationMapping (Some (Parsed sample_mapping)) =
     Inr ([(''Hello World'', ''Hallo Welt''), (''Save'', ''Speichern'')], 2) \<and>
   length (filter (\<lambda>(orig, v). \<exists>tr. v = JString tr \<and> trim orig \<noteq> [] \<and> trim tr \<noteq> [] \<and> orig \<noteq> tr)
                  (object_entries sample_mapping)) = 2"
proof -
  have o: "is_object sample_mapping" by (simp add: sample_mapping_def is_object_def)
  have l: "loadTranslationMapping (Some (Parsed sample_mapping)) =
     Inr ([(''Hello World'', ''Hallo Welt''), (''Save'', ''Speichern'')], 2)"
    by code_simp
  from mapping_validation[OF o] obtain reps n where
    a: "loadTranslationMapping (Some (Parsed sample_mapping)) = Inr (reps, n)"
    and b: "n = length (filter (\<lambda>(orig, v). \<exists>tr. v = JString tr \<and> trim orig \<noteq> [] \<and> trim tr \<noteq> [] \<and> orig \<noteq> tr)
                  (object_entries sample_mapping))"
    by blast
  from a l have "n = 2" by simp
  with b o l show ?thesis by simp
qed

subsection \<open>The pattern\<close>

lemma pattern_literal_escape: "pattern_literal (escapeRegExp k) = Some k"
proof (induction k)
  case Nil
  then show ?case by (simp add: escapeRegExp_def)
next
  case (Cons c k)
  have e: "escapeRegExp (c # k) = (if c \<in> set syntax_chars then [CHR 0x5C, c] else [c]) @ escapeRegExp k"
    by (simp add: escapeRegExp_def)
  show ?case
  proof (cases "c \<in> set syntax_chars")
    case True
    then show ?thesis using Cons.IH by (simp add: e)
  next
    case False
    then have nb: "c \<noteq> CHR 0x5C" by (auto simp: syntax_chars_def)
    show ?thesis
    proof (cases "escapeRegExp k")
      case Nil
      with Cons.IH have "k = []" by simp
      with False Nil show ?thesis by (simp add: escapeRegExp_def)
    next
      case (Cons d ds)
      with False nb Cons.IH show ?thesis by (simp add: e)
    qed
  qed
qed

lemma regex_exec_all_literal [simp]:
  "regex_exec_all (createReplacementRegex k) c = exec_loop k c 0"
  by (simp add: regex_exec_all_def createReplacementRegex_def pattern_literal_escape)

lemma string_replace_literal [simp]:
  "string_replace c (createReplacementRegex k) tr = Some (replace_loop k tr [] c)"
  by (simp add: string_replace_def createReplacementRegex_def pattern_literal_escape)

subsection \<open>Occurrences\<close>


lemma occurrences_in_Nil [simp]: "occurrences_in k [] = []"
  by (simp add: occurrences_in_def)






subsection \<open>The exec loop\<close>



subsection \<open>The replacement\<close>











subsection \<open>One pair, all pairs\<close>

















section \<open>Properties of the extractors\<close>

text \<open>The walk of the Vue SFC extractor visits exactly the files that the specification
  wants visited; the walk of \<open>extract-text.js\<close> visits no others.\<close>

lemma sfc_visits_eligible:
  "VueSFCExtractor_scanDirectory dir es = eligible_files dir es"
  by (induction dir es rule: eligible_files.induct) (auto simp: script_exts_def)

lemma TextExtractor_visits_only_eligible:
  "set (TextExtractor_scanDirectory dir es) \<subseteq> set (eligible_files dir es)"
  by (induction dir es rule: eligible_files.induct) auto

text \<open>
  Claim C7. In \<open>extract-text.js\<close> a configuration file ends the walk of its directory:
  \<open>scanDirectory\<close> returns where the sibling walk continues. In a root that lists
  \<open>package.json\<close> before \<open>src\<close> it visits nothing, and in \<open>src\<close> nothing behind
  \<open>vite.config.ts\<close>, while three files are eligible.
\<close>

theorem scanDirectory_returns_at_config_file:
  "eligible_files [] sample_tree =
     [([''src'', ''App.vue''], ''Save''), ([''src'', ''main.ts''], '' Cancel ''), ([''src'', ''util.js''], ''Save'')] \<and>
   VueSFCExtractor_scanDirectory [] sample_tree = eligible_files [] sample_tree \<and>
   TextExtractor_scanDirectory [] sample_tree = [] \<and>
   TextExtractor_scanDirectory [''src'']
     [File ''App.vue'' ''Save'', File ''vite.config.ts'' ''export default {}'', File ''main.ts'' '' Cancel '']
     = [([''src'', ''App.vue''], ''Save'')]"
  by code_simp

lemma dropWhile_id: "xs = [] \<or> \<not> P (hd xs) \<Longrightarrow> dropWhile P xs = xs"
  by (cases xs) auto

lemma trim_idem: "trim (trim s) = trim s"
proof -
  define t where "t = dropWhile is_space s"
  define r where "r = dropWhile is_space (rev t)"
  have tr: "trim s = rev r" by (simp add: trim_def t_def r_def)
  have r_hd: "r = [] \<or> \<not> is_space (hd r)"
    unfolding r_def using hd_dropWhile[of is_space "rev t"] by blast
  have r_last: "r = [] \<or> \<not> is_space (last r)"
  proof (cases "r = []")
    case True
    then show ?thesis by simp
  next
    case False
    then have "rev t \<noteq> []" by (auto simp: r_def)
    then have tne: "t \<noteq> []" by simp
    have "suffix r (rev t)" unfolding r_def by (rule suffix_dropWhile)
    with False have "last r = last (rev t)" by (auto simp: suffix_def)
    also have "\<dots> = hd t" using tne by (simp add: last_rev)
    finally have "last r = hd t" .
    moreover have "\<not> is_space (hd t)"
      using tne hd_dropWhile[of is_space s] by (simp add: t_def)
    ultimately show ?thesis by simp
  qed
  have a: "dropWhile is_space (rev r) = rev r"
    by (rule dropWhile_id) (use r_last in \<open>auto simp: hd_rev\<close>)
  have b: "dropWhile is_space r = r"
    using dropWhile_id[of r is_space] r_hd by simp
  show ?thesis unfolding tr by (simp add: trim_def a b)
qed

lemma addText_texts:
  "\<forall>r \<in> set xs. trim (rt_text r) \<noteq> [] \<Longrightarrow> \<forall>r \<in> set (addText tx f ctx xs). trim (rt_text r) \<noteq> []"
  by (auto simp: addText_def Let_def trim_idem)

lemma fold_addText_texts:
  "\<forall>r \<in> set xs. trim (rt_text r) \<noteq> [] \<Longrightarrow>
     \<forall>r \<in> set (fold (\<lambda>(tx, ctx). addText tx f ctx) cs xs). trim (rt_text r) \<noteq> []"
proof (induction cs arbitrary: xs)
  case Nil
  then show ?case by simp
next
  case (Cons c cs)
  obtain tx ctx where c: "c = (tx, ctx)" by (cases c)
  from addText_texts[OF Cons.prems, of tx f ctx] show ?case
    by (simp add: c Cons.IH)
qed

lemma processFile_texts:
  "\<forall>r \<in> set (fst st). trim (rt_text r) \<noteq> [] \<Longrightarrow>
     \<forall>r \<in> set (fst (TextExtractor_processFile harvest p st)). trim (rt_text r) \<noteq> []"
  by (cases p; cases st) (simp add: TextExtractor_processFile_def fold_addText_texts)

lemma fold_processFile_texts:
  "\<forall>r \<in> set (fst st). trim (rt_text r) \<noteq> [] \<Longrightarrow>
     \<forall>r \<in> set (fst (fold (TextExtractor_processFile harvest) ps st)). trim (rt_text r) \<noteq> []"
proof (induction ps arbitrary: st)
  case Nil
  then show ?case by simp
next
  case (Cons p ps)
  from Cons.IH[OF processFile_texts[OF Cons.prems, of harvest p]] show ?case by simp
qed

lemma update_first_texts:
  "(\<And>x. item_text (f x) = item_text x) \<Longrightarrow> map item_text (update_first P f xs) = map item_text xs"
  by (induction xs) auto

lemma update_first_text_set:
  assumes "\<And>x. item_text (f x) = item_text x"
  shows "item_text ` set (update_first P f xs) = item_text ` set xs"
  using update_first_texts[of f P xs, OF assms] by (metis set_map)

lemma add_file_text [simp]: "item_text (add_file f e) = item_text e"
  by (simp add: add_file_def Let_def)

lemma dedup_step_texts:
  "set (map item_text (snd (dedup_step item st))) \<subseteq> insert (rt_text item) (set (map item_text (snd st)))"
  by (cases st) (auto simp: dedup_step_def Let_def to_entry_def update_first_text_set)

lemma fold_dedup_texts:
  "set (map item_text (snd (fold dedup_step items st))) \<subseteq> rt_text ` set items \<union> set (map item_text (snd st))"
proof (induction items arbitrary: st)
  case Nil
  then show ?case by simp
next
  case (Cons item items)
  from Cons.IH[of "dedup_step item st"] dedup_step_texts[of item st] show ?case by auto
qed

lemma set_insort_by: "set (insort_by le x xs) = insert x (set xs)"
  by (induction xs) auto

lemma set_sort_by: "set (sort_by le xs) = set xs"
  by (induction xs) (simp_all add: sort_by_def set_insort_by)

lemma sorted_insort_by:
  assumes total: "\<And>a b. le a b \<or> le b a" and trans: "\<And>a b c. le a b \<Longrightarrow> le b c \<Longrightarrow> le a c"
  shows "sorted_wrt le xs \<Longrightarrow> sorted_wrt le (insort_by le x xs)"
proof (induction xs)
  case Nil
  then show ?case by simp
next
  case (Cons y ys)
  show ?case
  proof (cases "le x y")
    case True
    with Cons.prems trans[of x y] show ?thesis by auto
  next
    case False
    with total have "le y x" by blast
    with Cons False show ?thesis by (auto simp: set_insort_by)
  qed
qed

lemma sorted_sort_by:
  assumes "\<And>a b. le a b \<or> le b a" and "\<And>a b c. le a b \<Longrightarrow> le b c \<Longrightarrow> le a c"
  shows "sorted_wrt le (sort_by le xs)"
  by (induction xs) (simp_all add: sort_by_def sorted_insort_by[OF assms])

text \<open>
  Claim C8, as amended. For a collation that is a total preorder, every run on an
  existing source directory writes an output whose entries all have a text that is
  non-empty after trimming and are sorted by text in that collation; and a second run on
  the same tree writes the same output except for \<open>metadata.extractedAt\<close>, the time of
  the run.
\<close>

theorem extraction_output:
  assumes total: "\<forall>a b. localeCompare a b \<le> 0 \<or> localeCompare b a \<le> 0"
    and trans: "\<forall>a b c. localeCompare a b \<le> 0 \<and> localeCompare b c \<le> 0 \<longrightarrow> localeCompare a c \<le> 0"
  shows "\<exists>out. extractTexts localeCompare harvest now dir (Some tree) = Inr out \<and>
           (\<forall>e \<in> set (ex_texts out). trim (item_text e) \<noteq> []) \<and>
           sorted_wrt (\<lambda>a b. localeCompare (item_text a) (item_text b) \<le> 0) (ex_texts out) \<and>
           extractTexts localeCompare harvest now' dir (Some tree) =
             Inr (out\<lparr>ex_metadata := (ex_metadata out)\<lparr>extractedAt := now'\<rparr>\<rparr>)"
proof -
  define st where "st = fold (TextExtractor_processFile harvest) (TextExtractor_scanDirectory [] tree) ([], 0)"
  define uniq where "uniq = removeDuplicates localeCompare (fst st)"
  define out where "out = \<lparr>ex_metadata = \<lparr>sourceDir = dir, extractedAt = now, filesProcessed = snd st,
                                   textsFound = length uniq\<rparr>, ex_texts = uniq\<rparr>"
  have run: "extractTexts localeCompare harvest t dir (Some tree) =
      Inr (out\<lparr>ex_metadata := (ex_metadata out)\<lparr>extractedAt := t\<rparr>\<rparr>)" for t
    unfolding extractTexts_def out_def uniq_def st_def
    by (simp add: Let_def split: prod.splits)
  have raw: "\<forall>r \<in> set (fst st). trim (rt_text r) \<noteq> []"
    unfolding st_def by (rule fold_processFile_texts) simp
  have "set (map item_text uniq) \<subseteq> rt_text ` set (fst st)"
    using fold_dedup_texts[of "fst st" "([], [])"]
    by (simp add: uniq_def removeDuplicates_def set_sort_by)
  with raw have texts: "\<forall>e \<in> set (ex_texts out). trim (item_text e) \<noteq> []"
    by (auto simp: out_def)
  let ?le = "\<lambda>a b. localeCompare (item_text a) (item_text b) \<le> 0"
  have le_total: "?le a b \<or> ?le b a" for a b using total by blast
  have le_trans: "?le a b \<Longrightarrow> ?le b c \<Longrightarrow> ?le a c" for a b c using trans by blast
  have "sorted_wrt ?le (sort_by ?le (snd (fold dedup_step (fst st) ([], []))))"
    by (rule sorted_sort_by[where le = ?le, OF le_total le_trans])
  then have sorted: "sorted_wrt ?le (ex_texts out)"
    by (simp add: out_def uniq_def removeDuplicates_def)
  have "extractTexts localeCompare harvest now dir (Some tree) = Inr out"
    using run[of now] by (simp add: out_def)
  with texts sorted run[of now'] show ?thesis by blast
qed

theorem extraction_output_witness:
  "\<exists>out. extractTexts codeunit_compare sample_harvest ''2024-12-20T07:00:00.000Z'' ''app'' (Some sample_src) = Inr out \<and>
     map (\<lambda>e. (item_text e, item_origin e)) (ex_texts out) =
       [(''Cancel'', SingleFile ''src/main.ts''), (''Save'', Files [''src/App.vue'', ''src/util.js''])] \<and>
     list_all (\<lambda>e. trim (item_text e) \<noteq> []) (ex_texts out) \<and>
     sorted_wrt (\<lambda>a b. codeunit_compare (item_text a) (item_text b) \<le> 0) (ex_texts out) \<and>
     extractTexts codeunit_compare sample_harvest ''2024-12-20T07:30:00.000Z'' ''app'' (Some sample_src) =
       Inr (out\<lparr>ex_metadata := (ex_metadata out)\<lparr>extractedAt := ''2024-12-20T07:30:00.000Z''\<rparr>\<rparr>)"
proof -
  have total: "\<forall>a b. codeunit_compare a b \<le> 0 \<or> codeunit_compare b a \<le> 0"
    by (auto simp: codeunit_compare_def)
  have trans: "\<forall>a b c. codeunit_compare a b \<le> 0 \<and> codeunit_compare b c \<le> 0 \<longrightarrow> codeunit_compare a c \<le> 0"
  proof (intro allI impI)
    fix a b c :: string
    assume "codeunit_compare a b \<le> 0 \<and> codeunit_compare b c \<le> 0"
    then have "a \<le> b" "b \<le> c" by (auto simp: codeunit_compare_def split: if_splits)
    then have "a \<le> c" by (rule order_trans)
    then show "codeunit_compare a c \<le> 0" by (auto simp: codeunit_compare_def)
  qed
  from extraction_output[OF total trans, of sample_harvest "''2024-12-20T07:00:00.000Z''" "''app''" sample_src
      "''2024-12-20T07:30:00.000Z''"]
  obtain out where
    a: "extractTexts codeunit_compare sample_harvest ''2024-12-20T07:00:00.000Z'' ''app'' (Some sample_src) = Inr out"
    and b: "\<forall>e \<in> set (ex_texts out). trim (item_text e) \<noteq> []"
    and c: "sorted_wrt (\<lambda>a b. codeunit_compare (item_text a) (item_text b) \<le> 0) (ex_texts out)"
    and d: "extractTexts codeunit_compare sample_harvest ''2024-12-20T07:30:00.000Z'' ''app'' (Some sample_src) =
       Inr (out\<lparr>ex_metadata := (ex_metadata out)\<lparr>extractedAt := ''2024-12-20T07:30:00.000Z''\<rparr>\<rparr>)"
    by blast
  have "map (\<lambda>e. (item_text e, item_origin e))
          (ex_texts (projr (extractTexts codeunit_compare sample_harvest ''2024-12-20T07:00:00.000Z'' ''app'' (Some sample_src)))) =
       [(''Cancel'', SingleFile ''src/main.ts''), (''Save'', Files [''src/App.vue'', ''src/util.js''])]"
    by code_simp
  with a have e: "map (\<lambda>e. (item_text e, item_origin e)) (ex_texts out) =
       [(''Cancel'', SingleFile ''src/main.ts''), (''Save'', Files [''src/App.vue'', ''src/util.js''])]"
    by simp
  from b have b': "list_all (\<lambda>e. trim (item_text e) \<noteq> []) (ex_texts out)" by (simp add: list_all_iff)
  show ?thesis
    by (rule exI[of _ out]) (simp only: a e b' c d simp_thms)
qed

text \<open>As stated, with byte-identical outputs, C8 fails: two runs at different times differ
  in \<open>extractedAt\<close>.\<close>

theorem extraction_timestamp_counterexample:
  "extractTexts codeunit_compare sample_harvest ''2024-12-20T07:00:00.000Z'' ''app'' (Some sample_src) \<noteq>
   extractTexts codeunit_compare sample_harvest ''2024-12-20T07:30:00.000Z'' ''app'' (Some sample_src)"
  by (simp add: extractTexts_def Let_def split: prod.splits)

end
